theory Spec2Isabelle
  imports Main "HOL-Library.AList" "HOL-Library.Char_ord" "HOL-Library.List_Lexorder"
begin

section \<open>JavaScript values and JSON text\<close>

text \<open>
  JavaScript values that can be written to and read from JSON text.  Numbers are
  restricted to integers; an object is an association list in property order, and a
  JavaScript object never holds a key twice.  The JavaScript value \<open>undefined\<close> is not
  a JSON value: an expression that may be \<open>undefined\<close> has an \<open>option\<close> type, with
  \<open>None\<close> for \<open>undefined\<close>.  Strings are lists of 8-bit characters.
\<close>

datatype json =
    JNull
  | JBool bool
  | JNumber int
  | JString string
  | JArray "json list"
  | JObject "(string \<times> json) list"

subsection \<open>\<open>JSON.stringify\<close>\<close>

text \<open>
  The platform's \<open>JSON.stringify\<close> without indentation: the short escapes for the
  five control characters that have one, \<open>\u00XX\<close> for the other characters below
  \<open>0x20\<close>, and properties in the order of the object.
\<close>

abbreviation dquote :: char where
  "dquote \<equiv> CHR 0x22"

abbreviation bslash :: char where
  "bslash \<equiv> CHR 0x5C"

definition code :: "char \<Rightarrow> nat" where
  "code c = of_char c"

definition hex_digit :: "nat \<Rightarrow> char" where
  "hex_digit n = (if n < 10 then char_of (48 + n) else char_of (87 + n))"

definition escape_char :: "char \<Rightarrow> string" where
  "escape_char c =
     (if c = dquote then [bslash, dquote]
      else if c = bslash then [bslash, bslash]
      else if c = CHR 0x08 then [bslash, CHR ''b'']
      else if c = CHR 0x09 then [bslash, CHR ''t'']
      else if c = CHR 0x0A then [bslash, CHR ''n'']
      else if c = CHR 0x0C then [bslash, CHR ''f'']
      else if c = CHR 0x0D then [bslash, CHR ''r'']
      else if code c < 32
        then [bslash, CHR ''u'', CHR ''0'', CHR ''0'', hex_digit (code c div 16),
              hex_digit (code c mod 16)]
      else [c])"

definition quote_string :: "string \<Rightarrow> string" where
  "quote_string s = dquote # concat (map escape_char s) @ [dquote]"

definition digit_char :: "nat \<Rightarrow> char" where
  "digit_char d = char_of (48 + d)"

fun show_nat :: "nat \<Rightarrow> string" where
  "show_nat n = (if 10 \<le> n then show_nat (n div 10) @ [digit_char (n mod 10)] else [digit_char n])"

declare show_nat.simps [simp del]

definition show_int :: "int \<Rightarrow> string" where
  "show_int i = (if i < 0 then CHR ''-'' # show_nat (nat (- i)) else show_nat (nat i))"

fun commas :: "string list \<Rightarrow> string" where
  "commas [] = []"
| "commas [x] = x"
| "commas (x # y # ys) = x @ CHR '','' # commas (y # ys)"

fun JSON_stringify :: "json \<Rightarrow> string" where
  "JSON_stringify JNull = ''null''"
| "JSON_stringify (JBool b) = (if b then ''true'' else ''false'')"
| "JSON_stringify (JNumber i) = show_int i"
| "JSON_stringify (JString s) = quote_string s"
| "JSON_stringify (JArray vs) = CHR ''['' # commas (map JSON_stringify vs) @ '']''"
| "JSON_stringify (JObject kvs) =
     CHR ''{'' # commas (map (\<lambda>kv. quote_string (fst kv) @ CHR '':'' # JSON_stringify (snd kv)) kvs)
       @ ''}''"

subsection \<open>\<open>JSON.parse\<close>\<close>

text \<open>
  The platform's \<open>JSON.parse\<close> as a recursive-descent reader.  Every call of the
  three mutually recursive readers spends one unit of fuel; \<open>JSON_parse\<close> starts
  with twice the length of the text.  \<open>None\<close> is the \<open>SyntaxError\<close> of the
  platform.  Outside the modelled subset, and read as \<open>None\<close> as well, are numerals
  with a fraction or an exponent and \<open>\u\<close> escapes of code points from \<open>0x100\<close>
  on.  A key that occurs twice in an object text keeps its first position and takes
  the last value, as the platform's objects do.
\<close>

definition is_ws :: "char \<Rightarrow> bool" where
  "is_ws c = (c = CHR 0x20 \<or> c = CHR 0x09 \<or> c = CHR 0x0A \<or> c = CHR 0x0D)"

definition skip_ws :: "string \<Rightarrow> string" where
  "skip_ws s = dropWhile is_ws s"

definition is_digit :: "char \<Rightarrow> bool" where
  "is_digit c = (48 \<le> code c \<and> code c \<le> 57)"

definition hex_val :: "char \<Rightarrow> nat option" where
  "hex_val c =
     (if is_digit c then Some (code c - 48)
      else if 97 \<le> code c \<and> code c \<le> 102 then Some (code c - 87)
      else if 65 \<le> code c \<and> code c \<le> 70 then Some (code c - 55)
      else None)"

definition hex4 :: "char \<Rightarrow> char \<Rightarrow> char \<Rightarrow> char \<Rightarrow> nat option" where
  "hex4 a b c d =
     (case (hex_val a, hex_val b, hex_val c, hex_val d) of
        (Some x3, Some x2, Some x1, Some x0) \<Rightarrow> Some (((x3 * 16 + x2) * 16 + x1) * 16 + x0)
      | _ \<Rightarrow> None)"

definition unescape :: "char \<Rightarrow> char option" where
  "unescape e =
     (if e = dquote then Some dquote
      else if e = bslash then Some bslash
      else if e = CHR ''/'' then Some CHR ''/''
      else if e = CHR ''b'' then Some (CHR 0x08)
      else if e = CHR ''t'' then Some (CHR 0x09)
      else if e = CHR ''n'' then Some (CHR 0x0A)
      else if e = CHR ''f'' then Some (CHR 0x0C)
      else if e = CHR ''r'' then Some (CHR 0x0D)
      else None)"

definition cons_result :: "char \<Rightarrow> (string \<times> string) option \<Rightarrow> (string \<times> string) option" where
  "cons_result c r = (case r of None \<Rightarrow> None | Some (cs, rest) \<Rightarrow> Some (c # cs, rest))"

fun parse_chars :: "string \<Rightarrow> (string \<times> string) option" where
  "parse_chars [] = None"
| "parse_chars (c # r) =
     (if c = dquote then Some ([], r)
      else if c = bslash then
        (case r of
           [] \<Rightarrow> None
         | e # r1 \<Rightarrow>
             if e = CHR ''u'' then
               (case r1 of
                  h1 # h2 # h3 # h4 # r2 \<Rightarrow>
                    (case hex4 h1 h2 h3 h4 of
                       None \<Rightarrow> None
                     | Some n \<Rightarrow> if n < 256 then cons_result (char_of n) (parse_chars r2) else None)
                | _ \<Rightarrow> None)
             else (case unescape e of
                     None \<Rightarrow> None
                   | Some ch \<Rightarrow> cons_result ch (parse_chars r1)))
      else if code c < 32 then None
      else cons_result c (parse_chars r))"

definition nat_of_digits :: "string \<Rightarrow> nat" where
  "nat_of_digits ds = foldl (\<lambda>a c. 10 * a + (code c - 48)) 0 ds"

definition parse_number :: "string \<Rightarrow> (json \<times> string) option" where
  "parse_number s =
     (let neg = (s \<noteq> [] \<and> hd s = CHR ''-'');
          t = (if neg then tl s else s);
          ds = takeWhile is_digit t;
          r = dropWhile is_digit t
      in if ds = [] then None
         else if hd ds = CHR ''0'' \<and> tl ds \<noteq> [] then None
         else if r \<noteq> [] \<and> (hd r = CHR ''.'' \<or> hd r = CHR ''e'' \<or> hd r = CHR ''E'') then None
         else Some (JNumber (if neg then - int (nat_of_digits ds) else int (nat_of_digits ds)), r))"

definition expect :: "string \<Rightarrow> json \<Rightarrow> string \<Rightarrow> (json \<times> string) option" where
  "expect lit v s = (if take (length lit) s = lit then Some (v, drop (length lit) s) else None)"

definition set_props :: "(string \<times> json) list \<Rightarrow> (string \<times> json) list" where
  "set_props kvs = foldl (\<lambda>acc kv. AList.update (fst kv) (snd kv) acc) [] kvs"

fun parse_value :: "nat \<Rightarrow> string \<Rightarrow> (json \<times> string) option"
  and parse_elements :: "nat \<Rightarrow> string \<Rightarrow> (json list \<times> string) option"
  and parse_members :: "nat \<Rightarrow> string \<Rightarrow> ((string \<times> json) list \<times> string) option" where
  "parse_value 0 s = None"
| "parse_value (Suc n) s =
     (case skip_ws s of
        [] \<Rightarrow> None
      | c # r \<Rightarrow>
          if c = CHR ''n'' then expect ''ull'' JNull r
          else if c = CHR ''t'' then expect ''rue'' (JBool True) r
          else if c = CHR ''f'' then expect ''alse'' (JBool False) r
          else if c = dquote then
            (case parse_chars r of None \<Rightarrow> None | Some (str, r1) \<Rightarrow> Some (JString str, r1))
          else if c = CHR ''['' then
            (case skip_ws r of
               [] \<Rightarrow> None
             | d # r1 \<Rightarrow>
                 if d = CHR '']'' then Some (JArray [], r1)
                 else (case parse_elements n r of
                         None \<Rightarrow> None
                       | Some (vs, r2) \<Rightarrow> Some (JArray vs, r2)))
          else if c = CHR ''{'' then
            (case skip_ws r of
               [] \<Rightarrow> None
             | d # r1 \<Rightarrow>
                 if d = CHR ''}'' then Some (JObject [], r1)
                 else (case parse_members n r of
                         None \<Rightarrow> None
                       | Some (kvs, r2) \<Rightarrow> Some (JObject (set_props kvs), r2)))
          else if c = CHR ''-'' \<or> is_digit c then parse_number (c # r)
          else None)"
| "parse_elements 0 s = None"
| "parse_elements (Suc n) s =
     (case parse_value n s of
        None \<Rightarrow> None
      | Some (v, r) \<Rightarrow>
          (case skip_ws r of
             [] \<Rightarrow> None
           | d # r1 \<Rightarrow>
               if d = CHR '','' then
                 (case parse_elements n r1 of
                    None \<Rightarrow> None
                  | Some (vs, r2) \<Rightarrow> Some (v # vs, r2))
               else if d = CHR '']'' then Some ([v], r1)
               else None))"
| "parse_members 0 s = None"
| "parse_members (Suc n) s =
     (case skip_ws s of
        [] \<Rightarrow> None
      | q # r \<Rightarrow>
          if q \<noteq> dquote then None
          else
            (case parse_chars r of
               None \<Rightarrow> None
             | Some (k, r1) \<Rightarrow>
                 (case skip_ws r1 of
                    [] \<Rightarrow> None
                  | c # r2 \<Rightarrow>
                      if c \<noteq> CHR '':'' then None
                      else
                        (case parse_value n r2 of
                           None \<Rightarrow> None
                         | Some (v, r3) \<Rightarrow>
                             (case skip_ws r3 of
                                [] \<Rightarrow> None
                              | d # r4 \<Rightarrow>
                                  if d = CHR '','' then
                                    (case parse_members n r4 of
                                       None \<Rightarrow> None
                                     | Some (kvs, r5) \<Rightarrow> Some ((k, v) # kvs, r5))
                                  else if d = CHR ''}'' then Some ([(k, v)], r4)
                                  else None)))))"

definition JSON_parse :: "string \<Rightarrow> json option" where
  "JSON_parse s =
     (case parse_value (2 * length s) s of
        None \<Rightarrow> None
      | Some (v, r) \<Rightarrow> if skip_ws r = [] then Some v else None)"






text \<open>
  Property access \<open>v.k\<close> on a parsed value: a \<open>TypeError\<close> on \<open>null\<close>, the
  property of an object, and \<open>undefined\<close> on every other value (none of the keys
  read below is a property of a number, a string, a boolean or an array).
\<close>

datatype js_error = JsTypeError

definition js_get :: "json \<Rightarrow> string \<Rightarrow> js_error + json option" where
  "js_get v k =
     (case v of
        JNull \<Rightarrow> Inl JsTypeError
      | JObject kvs \<Rightarrow> Inr (map_of kvs k)
      | _ \<Rightarrow> Inr None)"

text \<open>
  An object literal as \<open>JSON.stringify\<close> sees it: a property whose value is
  \<open>undefined\<close> is left out.
\<close>

definition object_literal :: "(string \<times> json option) list \<Rightarrow> json" where
  "object_literal fields =
     JObject (List.map_filter (\<lambda>kv. map_option (Pair (fst kv)) (snd kv)) fields)"

section \<open>Data model\<close>

text \<open>
  The entities are declared outside the given sources (the repositories and
  \<open>n8n-workflow\<close>); the records carry the fields the given code reads and writes,
  with the names it uses.  Time stamps are natural numbers.
\<close>

record chat_message =
  msg_id :: string
  msg_sessionId :: string
  parentMessageId :: "string option"
  msg_role :: string
  msg_createdAt :: nat
  msg_turnId :: "string option"

record memory_entry =
  mem_id :: string
  mem_sessionId :: string
  mem_memoryNodeId :: string
  mem_turnId :: "string option"
  mem_role :: string
  mem_content :: string
  mem_name :: "string option"
  mem_createdAt :: nat

text \<open>The typed entry contract \<open>ChatHubMemoryEntry\<close> returned by \<open>getMemory\<close>.\<close>

record chat_hub_memory_entry =
  entry_id :: string
  entry_role :: string
  entry_content :: string
  entry_name :: "string option"
  entry_createdAt :: nat

text \<open>
  The value a caller passes as the owner of a facade, which the facade keeps and hands
  to the session repository.  The signature of \<open>getChatHubProxy\<close> asks for a string;
  the host helper passes an array of strings in that position.
\<close>

datatype owner_value = OwnerString string | OwnerArray "string list"

record chat_session =
  session_id :: string
  session_ownerId :: owner_value
  session_title :: string
  session_lastMessageAt :: nat
  session_tools :: "json list"
  session_provider :: string
  session_credentialId :: "string option"
  session_model :: "string option"
  session_workflowId :: "string option"
  session_agentId :: "string option"
  session_agentName :: string

text \<open>A workflow node, and a workflow with its nodes in property order.\<close>

record inode =
  node_type :: string
  node_parameters :: "(string \<times> json) list"

record workflow =
  wf_id :: "string option"
  wf_name :: "string option"
  wf_nodes :: "(string \<times> inode) list"

section \<open>Errors and repository state\<close>

datatype chain_error = NoRoot | MultipleRoots | Cycle

datatype error =
    NotAllowedNode
  | OwnerIdRequired
  | StructuralViolation chain_error
  | UniqueViolation
  | TypeError

text \<open>
  The state of the three repositories, and the calls made to them, in order.
\<close>

datatype repo_call =
    GetManyBySessionId string
  | GetMemoryByTurnIds string string "string list"
  | CreateMemoryEntry string
  | DeleteBySessionAndNode string string
  | ExistsById string owner_value
  | CreateChatSession string

record repos =
  messages :: "chat_message list"
  memory :: "memory_entry list"
  sessions :: "chat_session list"
  calls :: "repo_call list"

definition called :: "repo_call \<Rightarrow> repos \<Rightarrow> repos" where
  "called c s = s\<lparr>calls := calls s @ [c]\<rparr>"

subsection \<open>Repositories\<close>

text \<open>
  Modelled from the spec: \<open>ChatHubMessageRepository.getManyBySessionId\<close> is not in
  the given sources.  It is the store interface's \<open>listMessages(sessionId)\<close>: all
  messages of the session.
\<close>

definition getManyBySessionId :: "string \<Rightarrow> repos \<Rightarrow> chat_message list \<times> repos" where
  "getManyBySessionId sid s =
     (filter (\<lambda>m. msg_sessionId m = sid) (messages s), called (GetManyBySessionId sid) s)"

text \<open>
  Modelled from the spec: \<open>ChatHubMemoryRepository.getMemoryByTurnIds\<close> is not in the
  given sources.  It is \<open>listMemoryEntries(sessionId, memoryNodeId, turnIds)\<close>: the
  entries matching the session, the memory node and one of the turn ids, ordered by
  creation time (entries of one creation time in the order of their insertion).
\<close>

definition matches_turn :: "string list \<Rightarrow> memory_entry \<Rightarrow> bool" where
  "matches_turn tids e = (case mem_turnId e of None \<Rightarrow> False | Some t \<Rightarrow> t \<in> set tids)"

definition getMemoryByTurnIds ::
  "string \<Rightarrow> string \<Rightarrow> string list \<Rightarrow> repos \<Rightarrow> memory_entry list \<times> repos" where
  "getMemoryByTurnIds sid nid tids s =
     (sort_key mem_createdAt
        (filter (\<lambda>e. mem_sessionId e = sid \<and> mem_memoryNodeId e = nid \<and> matches_turn tids e)
           (memory s)),
      called (GetMemoryByTurnIds sid nid tids) s)"

text \<open>
  Modelled from the spec: \<open>ChatHubMemoryRepository.createMemoryEntry\<close> is not in the
  given sources.  It is \<open>appendMemoryEntry(entry)\<close> on an append-only log; the
  creation time is the store's, given here with the entry.
\<close>

definition createMemoryEntry :: "memory_entry \<Rightarrow> repos \<Rightarrow> repos" where
  "createMemoryEntry e s = called (CreateMemoryEntry (mem_id e)) (s\<lparr>memory := memory s @ [e]\<rparr>)"

text \<open>
  Modelled from the spec: \<open>ChatHubMemoryRepository.deleteBySessionAndNode\<close> is not in
  the given sources.  It is \<open>deleteMemoryEntries(sessionId, memoryNodeId)\<close>: all
  entries of the pair are deleted, never a part of them.
\<close>

definition deleteBySessionAndNode :: "string \<Rightarrow> string \<Rightarrow> repos \<Rightarrow> repos" where
  "deleteBySessionAndNode sid nid s =
     called (DeleteBySessionAndNode sid nid)
       (s\<lparr>memory := filter (\<lambda>e. \<not> (mem_sessionId e = sid \<and> mem_memoryNodeId e = nid)) (memory s)\<rparr>)"

text \<open>
  Modelled from the spec: \<open>ChatHubSessionRepository.existsById\<close> is not in the given
  sources.  It is \<open>sessionExists(id, ownerId)\<close>: whether a session with this id
  exists for this owner.
\<close>

definition existsById :: "string \<Rightarrow> owner_value \<Rightarrow> repos \<Rightarrow> bool \<times> repos" where
  "existsById sid oid s =
     (list_ex (\<lambda>x. session_id x = sid \<and> session_ownerId x = oid) (sessions s),
      called (ExistsById sid oid) s)"

text \<open>
  Modelled from the spec: \<open>ChatHubSessionRepository.createChatSession\<close> is not in the
  given sources.  It is \<open>createSession(record)\<close> under the repository's uniqueness
  enforcement (a session is created at most once per id): the create fails with a
  uniqueness violation when a session with the id is stored already.
\<close>

definition createChatSession :: "chat_session \<Rightarrow> repos \<Rightarrow> (error + unit) \<times> repos" where
  "createChatSession r s =
     (if list_ex (\<lambda>x. session_id x = session_id r) (sessions s)
      then (Inl UniqueViolation, called (CreateChatSession (session_id r)) s)
      else (Inr (), called (CreateChatSession (session_id r)) (s\<lparr>sessions := sessions s @ [r]\<rparr>)))"

section \<open>The active chain\<close>

text \<open>
  Modelled from the spec: \<open>buildMessageHistory\<close> of \<open>chat-hub-history.utils\<close> is not in
  the given sources.  The children of a message are the stored messages whose parent
  it is; of several children the one created last is selected, and of those created at
  the same time the one with the greatest id (the spec asks for a tie-break by id and
  leaves its direction open).  The walk starts at the root, the message without a
  parent, and ends at a message without children.  No root and several roots are
  structural errors, and so is a walk longer than the number of messages, which only
  a cycle produces.
\<close>

definition children_of :: "chat_message list \<Rightarrow> chat_message \<Rightarrow> chat_message list" where
  "children_of msgs m = filter (\<lambda>c. parentMessageId c = Some (msg_id m)) msgs"

definition later :: "chat_message \<Rightarrow> chat_message \<Rightarrow> bool" where
  "later a b =
     (msg_createdAt b < msg_createdAt a \<or> (msg_createdAt b = msg_createdAt a \<and> msg_id b < msg_id a))"

fun latest :: "chat_message list \<Rightarrow> chat_message option" where
  "latest [] = None"
| "latest (c # cs) =
     (case latest cs of
        None \<Rightarrow> Some c
      | Some d \<Rightarrow> if later d c then Some d else Some c)"

fun walk :: "nat \<Rightarrow> chat_message list \<Rightarrow> chat_message \<Rightarrow> chain_error + chat_message list" where
  "walk 0 msgs m = Inl Cycle"
| "walk (Suc n) msgs m =
     (case latest (children_of msgs m) of
        None \<Rightarrow> Inr [m]
      | Some c \<Rightarrow> (case walk n msgs c of Inl e \<Rightarrow> Inl e | Inr cs \<Rightarrow> Inr (m # cs)))"

definition buildMessageHistory :: "chat_message list \<Rightarrow> chain_error + chat_message list" where
  "buildMessageHistory msgs =
     (if msgs = [] then Inr []
      else (case filter (\<lambda>m. parentMessageId m = None) msgs of
              [] \<Rightarrow> Inl NoRoot
            | [r] \<Rightarrow> walk (length msgs) msgs r
            | _ \<Rightarrow> Inl MultipleRoots))"

text \<open>
  The properties of a chain the spec names: an active path takes, from each of its
  messages, the latest child as the next message, and ends at a message without
  children; a descendant of a message is a stored child of it, or a stored child of
  a descendant.
\<close>

fun active_path :: "chat_message list \<Rightarrow> chat_message list \<Rightarrow> bool" where
  "active_path msgs [] = True"
| "active_path msgs [m] = (children_of msgs m = [])"
| "active_path msgs (m # c # cs) =
     (latest (children_of msgs m) = Some c \<and> active_path msgs (c # cs))"

inductive descendant :: "chat_message list \<Rightarrow> chat_message \<Rightarrow> chat_message \<Rightarrow> bool"
  for msgs :: "chat_message list" where
  child: "c \<in> set msgs \<Longrightarrow> parentMessageId c = Some (msg_id a) \<Longrightarrow> descendant msgs c a"
| below: "descendant msgs c a \<Longrightarrow> d \<in> set msgs \<Longrightarrow> parentMessageId d = Some (msg_id c)
          \<Longrightarrow> descendant msgs d a"

text \<open>
  The messages from one on the chain up to the root, each the child of the next: the
  part of the walk already made.
\<close>

fun rooted :: "chat_message list \<Rightarrow> bool" where
  "rooted [] = False"
| "rooted [m] = (parentMessageId m = None)"
| "rooted (c # m # p) = (parentMessageId c = Some (msg_id m) \<and> rooted (m # p))"

text \<open>
  Modelled from the spec: \<open>extractTurnIds\<close> of \<open>chat-hub-history.utils\<close> is not in the
  given sources.  It yields the turn ids found on the assistant (\<open>ai\<close>) messages of a
  chain, in chain order, each once.
\<close>

definition turn_of :: "chat_message \<Rightarrow> string option" where
  "turn_of m = (if msg_role m = ''ai'' then msg_turnId m else None)"

definition extractTurnIds :: "chat_message list \<Rightarrow> string list" where
  "extractTurnIds chain = rev (remdups (rev (List.map_filter turn_of chain)))"

section \<open>The proxy service\<close>

definition ALLOWED_NODES :: "string list" where
  "ALLOWED_NODES = [''@n8n/n8n-nodes-langchain.memoryChatHub'']"

definition NAME_FALLBACK :: string where
  "NAME_FALLBACK = ''Workflow Chat''"

definition isAllowedNode :: "string \<Rightarrow> bool" where
  "isAllowedNode s = (s \<in> set ALLOWED_NODES)"

definition validateRequest :: "inode \<Rightarrow> error + unit" where
  "validateRequest node =
     (if \<not> isAllowedNode (node_type node) then Inl NotAllowedNode else Inr ())"

text \<open>
  \<open>String.prototype.trim\<close> on strings of 8-bit characters: the white space and line
  terminators below \<open>0x100\<close> are removed at both ends.
\<close>

definition js_white :: "char \<Rightarrow> bool" where
  "js_white c = (code c = 9 \<or> code c = 10 \<or> code c = 11 \<or> code c = 12 \<or> code c = 13
     \<or> code c = 32 \<or> code c = 160)"

definition trim :: "string \<Rightarrow> string" where
  "trim s = rev (dropWhile js_white (rev (dropWhile js_white s)))"

text \<open>
  The name of the workflow when it is a non-empty string that is not all white space,
  the fallback otherwise: the last two returns of \<open>extractAgentName\<close>.
\<close>

definition workflow_name_or_default :: "workflow \<Rightarrow> string" where
  "workflow_name_or_default w =
     (case wf_name w of
        None \<Rightarrow> NAME_FALLBACK
      | Some nm \<Rightarrow> if nm \<noteq> [] \<and> trim nm \<noteq> [] then nm else NAME_FALLBACK)"

definition extractAgentName :: "workflow \<Rightarrow> string" where
  "extractAgentName w =
     (let chatTriggerNode =
            find (\<lambda>n. node_type n = ''@n8n/n8n-nodes-langchain.chatTrigger'')
              (map snd (wf_nodes w));
          agentName =
            (case chatTriggerNode of
               None \<Rightarrow> None
             | Some n \<Rightarrow> map_of (node_parameters n) ''agentName'')
      in case agentName of
           Some (JString a) \<Rightarrow> if trim a \<noteq> [] then a else workflow_name_or_default w
         | _ \<Rightarrow> workflow_name_or_default w)"

text \<open>
  The object returned by \<open>makeChatHubOperations\<close> closes over its six arguments; the
  record holds them, and each operation of the object is a function of the record.
\<close>

record facade =
  sessionId :: string
  memoryNodeId :: string
  executionTurnId :: "string option"
  ownerId :: owner_value
  workflowId :: "string option"
  agentName :: string

definition makeChatHubOperations ::
  "string \<Rightarrow> string \<Rightarrow> string option \<Rightarrow> owner_value \<Rightarrow> string option \<Rightarrow> string \<Rightarrow> facade" where
  "makeChatHubOperations sid nid tid oid wid an =
     \<lparr>sessionId = sid, memoryNodeId = nid, executionTurnId = tid, ownerId = oid,
      workflowId = wid, agentName = an\<rparr>"

text \<open>
  \<open>getChatHubProxy\<close>: the owner is optional, and \<open>!ownerId\<close> holds for a missing owner
  and for the empty string; an array is not falsy, the empty one included.  The
  repositories are passed through untouched.
\<close>

definition getChatHubProxy ::
  "workflow \<Rightarrow> inode \<Rightarrow> string \<Rightarrow> string \<Rightarrow> string option \<Rightarrow> owner_value option \<Rightarrow> repos
     \<Rightarrow> (error + facade) \<times> repos" where
  "getChatHubProxy w node sid nid tid oid s =
     (case validateRequest node of
        Inl e \<Rightarrow> (Inl e, s)
      | Inr _ \<Rightarrow>
          (case oid of
             None \<Rightarrow> (Inl OwnerIdRequired, s)
           | Some ownr \<Rightarrow>
               if ownr = OwnerString [] then (Inl OwnerIdRequired, s)
               else (Inr (makeChatHubOperations sid nid tid ownr (wf_id w)
                            (extractAgentName w)), s)))"

subsection \<open>The operations of the facade\<close>

definition getOwnerId :: "facade \<Rightarrow> owner_value" where
  "getOwnerId f = ownerId f"

definition to_entry :: "memory_entry \<Rightarrow> chat_hub_memory_entry" where
  "to_entry e =
     \<lparr>entry_id = mem_id e, entry_role = mem_role e, entry_content = mem_content e,
      entry_name = mem_name e, entry_createdAt = mem_createdAt e\<rparr>"

definition getMemory :: "facade \<Rightarrow> repos \<Rightarrow> (error + chat_hub_memory_entry list) \<times> repos" where
  "getMemory f s =
     (let (chatMessages, s1) = getManyBySessionId (sessionId f) s
      in if length chatMessages = 0 then (Inr [], s1)
         else (case buildMessageHistory chatMessages of
                 Inl e \<Rightarrow> (Inl (StructuralViolation e), s1)
               | Inr messageChain \<Rightarrow>
                   (let turnIds = extractTurnIds messageChain
                    in if length turnIds = 0 then (Inr [], s1)
                       else (let (memoryEntries, s2) =
                                   getMemoryByTurnIds (sessionId f) (memoryNodeId f) turnIds s1
                             in (Inr (map to_entry memoryEntries), s2)))))"

text \<open>
  The three writes take the result of \<open>uuid()\<close> and the creation time of the store as
  arguments.
\<close>

definition addHumanMessage :: "facade \<Rightarrow> string \<Rightarrow> nat \<Rightarrow> string \<Rightarrow> repos \<Rightarrow> repos" where
  "addHumanMessage f new_id now content s =
     createMemoryEntry
       \<lparr>mem_id = new_id, mem_sessionId = sessionId f, mem_memoryNodeId = memoryNodeId f,
        mem_turnId = executionTurnId f, mem_role = ''human'', mem_content = content,
        mem_name = Some ''User'', mem_createdAt = now\<rparr> s"

definition addAIMessage :: "facade \<Rightarrow> string \<Rightarrow> nat \<Rightarrow> string \<Rightarrow> repos \<Rightarrow> repos" where
  "addAIMessage f new_id now content s =
     createMemoryEntry
       \<lparr>mem_id = new_id, mem_sessionId = sessionId f, mem_memoryNodeId = memoryNodeId f,
        mem_turnId = executionTurnId f, mem_role = ''ai'', mem_content = content,
        mem_name = Some ''AI'', mem_createdAt = now\<rparr> s"

definition addToolMessage ::
  "facade \<Rightarrow> string \<Rightarrow> nat \<Rightarrow> string \<Rightarrow> string \<Rightarrow> json option \<Rightarrow> json option \<Rightarrow> repos \<Rightarrow> repos" where
  "addToolMessage f new_id now toolCallId toolName toolInput toolOutput s =
     (let content =
            JSON_stringify
              (object_literal
                 [(''toolCallId'', Some (JString toolCallId)),
                  (''toolName'', Some (JString toolName)),
                  (''toolInput'', toolInput),
                  (''toolOutput'', toolOutput)])
      in createMemoryEntry
           \<lparr>mem_id = new_id, mem_sessionId = sessionId f, mem_memoryNodeId = memoryNodeId f,
            mem_turnId = executionTurnId f, mem_role = ''tool'', mem_content = content,
            mem_name = Some toolName, mem_createdAt = now\<rparr> s)"

definition clearMemory :: "facade \<Rightarrow> repos \<Rightarrow> repos" where
  "clearMemory f s = deleteBySessionAndNode (sessionId f) (memoryNodeId f) s"

text \<open>
  \<open>ensureSession\<close> awaits the existence check and then the create.  Other executions
  run between the two; \<open>others\<close> is what they do to the repositories there, and
  \<open>ensureSession\<close> itself is the run in which they do nothing.  \<open>title || agentName\<close>
  takes the agent name for a missing title and for the empty one.
\<close>

definition ensureSession_among ::
  "(repos \<Rightarrow> repos) \<Rightarrow> facade \<Rightarrow> string option \<Rightarrow> nat \<Rightarrow> repos \<Rightarrow> (error + unit) \<times> repos" where
  "ensureSession_among others f title now s =
     (let (exists, s1) = existsById (sessionId f) (ownerId f) s
      in if \<not> exists then
           (let sessionTitle =
                  (case title of
                     None \<Rightarrow> agentName f
                   | Some t \<Rightarrow> if t \<noteq> [] then t else agentName f)
            in createChatSession
                 \<lparr>session_id = sessionId f, session_ownerId = ownerId f,
                  session_title = sessionTitle, session_lastMessageAt = now,
                  session_tools = [], session_provider = ''n8n'',
                  session_credentialId = None, session_model = None,
                  session_workflowId = workflowId f, session_agentId = None,
                  session_agentName = agentName f\<rparr>
                 (others s1))
         else (Inr (), s1))"

definition ensureSession ::
  "facade \<Rightarrow> string option \<Rightarrow> nat \<Rightarrow> repos \<Rightarrow> (error + unit) \<times> repos" where
  "ensureSession f title now s = ensureSession_among id f title now s"

text \<open>
  What another execution does between the two awaits when it wins the race to create
  the session: its own create.
\<close>

definition other_execution_creates :: "chat_session \<Rightarrow> repos \<Rightarrow> repos" where
  "other_execution_creates r s = snd (createChatSession r s)"

section \<open>The host helper\<close>




section \<open>The message history of the memory node\<close>

text \<open>
  A LangChain message as \<open>addMessage\<close> receives it: one of the message classes of the
  library, with the fields the method reads.  The content is a string or a list of
  content parts; \<open>getType\<close> is \<open>_getType()\<close>.
\<close>

datatype message_content = Text string | Complex "json list"

datatype base_message =
    HumanMessage message_content
  | AIMessage message_content "json list option"
  | SystemMessage message_content
  | ToolMessage message_content string "string option"
  | FunctionMessage message_content
  | ChatMessage message_content
  | RemoveMessage message_content

fun getType :: "base_message \<Rightarrow> string" where
  "getType (HumanMessage c) = ''human''"
| "getType (AIMessage c tcs) = ''ai''"
| "getType (SystemMessage c) = ''system''"
| "getType (ToolMessage c i n) = ''tool''"
| "getType (FunctionMessage c) = ''function''"
| "getType (ChatMessage c) = ''generic''"
| "getType (RemoveMessage c) = ''remove''"

fun content_of :: "base_message \<Rightarrow> message_content" where
  "content_of (HumanMessage c) = c"
| "content_of (AIMessage c tcs) = c"
| "content_of (SystemMessage c) = c"
| "content_of (ToolMessage c i n) = c"
| "content_of (FunctionMessage c) = c"
| "content_of (ChatMessage c) = c"
| "content_of (RemoveMessage c) = c"

definition content_value :: "message_content \<Rightarrow> json" where
  "content_value c = (case c of Text t \<Rightarrow> JString t | Complex parts \<Rightarrow> JArray parts)"

text \<open>
  The call of a LangChain constructor in \<open>convertToLangChainMessage\<close>, with the fields
  passed to it: what the method returns is the object the library builds from them.
  The fields are JavaScript values read from parsed text, so a content may be
  \<open>undefined\<close> and the tool calls, the tool call id and the tool name any value.
\<close>

datatype constructed =
    NewHumanMessage "string option" "string option"
  | NewAIMessage "string option" "string option" json
  | NewSystemMessage string
  | NewToolMessage "string option" "json option" "json option"

text \<open>
  \<open>typeof x === 'string' ? x : JSON.stringify(x)\<close> on a property that was read.
\<close>

definition string_or_stringify :: "json option \<Rightarrow> string option" where
  "string_or_stringify x =
     (case x of
        None \<Rightarrow> None
      | Some (JString t) \<Rightarrow> Some t
      | Some v \<Rightarrow> Some (JSON_stringify v))"

text \<open>
  The three readers run in a \<open>try\<close> block: a \<open>SyntaxError\<close> of \<open>JSON.parse\<close> and a
  \<open>TypeError\<close> of a property access are caught, and the fallback is returned.
\<close>

definition parseHumanMessageContent :: "string \<Rightarrow> string option" where
  "parseHumanMessageContent content =
     (case JSON_parse content of
        None \<Rightarrow> Some content
      | Some parsed \<Rightarrow>
          (case js_get parsed ''content'' of
             Inl _ \<Rightarrow> Some content
           | Inr c \<Rightarrow> string_or_stringify c))"

definition parseAIMessageContent :: "string \<Rightarrow> string option \<times> json" where
  "parseAIMessageContent content =
     (case JSON_parse content of
        None \<Rightarrow> (Some content, JArray [])
      | Some parsed \<Rightarrow>
          (case js_get parsed ''content'' of
             Inl _ \<Rightarrow> (Some content, JArray [])
           | Inr c \<Rightarrow>
               (case js_get parsed ''toolCalls'' of
                  Inl _ \<Rightarrow> (Some content, JArray [])
                | Inr None \<Rightarrow> (string_or_stringify c, JArray [])
                | Inr (Some JNull) \<Rightarrow> (string_or_stringify c, JArray [])
                | Inr (Some tcs) \<Rightarrow> (string_or_stringify c, tcs))))"

definition parseToolMessageContent :: "string \<Rightarrow> json" where
  "parseToolMessageContent content =
     (case JSON_parse content of
        None \<Rightarrow>
          JObject [(''toolCallId'', JString ''unknown''), (''toolName'', JString ''unknown''),
                   (''toolInput'', JObject []), (''toolOutput'', JString content)]
      | Some parsed \<Rightarrow> parsed)"

text \<open>
  In the \<open>tool\<close> case the three properties of the parsed value are read outside the
  \<open>try\<close> block of the reader, \<open>toolOutput\<close> first.
\<close>

definition convertToLangChainMessage :: "chat_hub_memory_entry \<Rightarrow> error + constructed" where
  "convertToLangChainMessage entry =
     (if entry_role entry = ''human'' then
        Inr (NewHumanMessage (parseHumanMessageContent (entry_content entry)) (entry_name entry))
      else if entry_role entry = ''ai'' then
        (let aiData = parseAIMessageContent (entry_content entry)
         in Inr (NewAIMessage (fst aiData) (entry_name entry) (snd aiData)))
      else if entry_role entry = ''system'' then Inr (NewSystemMessage (entry_content entry))
      else if entry_role entry = ''tool'' then
        (let toolData = parseToolMessageContent (entry_content entry)
         in case js_get toolData ''toolOutput'' of
              Inl _ \<Rightarrow> Inl TypeError
            | Inr out \<Rightarrow>
                (case js_get toolData ''toolCallId'' of
                   Inl _ \<Rightarrow> Inl TypeError
                 | Inr tcid \<Rightarrow>
                     (case js_get toolData ''toolName'' of
                        Inl _ \<Rightarrow> Inl TypeError
                      | Inr nm \<Rightarrow> Inr (NewToolMessage (map_option JSON_stringify out) tcid nm))))
      else Inr (NewSystemMessage (entry_content entry)))"

fun convert_all :: "chat_hub_memory_entry list \<Rightarrow> error + constructed list" where
  "convert_all [] = Inr []"
| "convert_all (e # es) =
     (case convertToLangChainMessage e of
        Inl err \<Rightarrow> Inl err
      | Inr m \<Rightarrow> (case convert_all es of Inl err \<Rightarrow> Inl err | Inr ms \<Rightarrow> Inr (m # ms)))"

definition getMessages :: "facade \<Rightarrow> repos \<Rightarrow> (error + constructed list) \<times> repos" where
  "getMessages f s =
     (let (r, s1) = getMemory f s
      in case r of Inl e \<Rightarrow> (Inl e, s1) | Inr entries \<Rightarrow> (convert_all entries, s1))"

text \<open>
  \<open>addMessage\<close>: the content as a string, then one call of the memory service for a
  human, an assistant or a tool message, and none for any other message.
\<close>

definition addMessage :: "facade \<Rightarrow> string \<Rightarrow> nat \<Rightarrow> base_message \<Rightarrow> repos \<Rightarrow> repos" where
  "addMessage f new_id now message s =
     (let messageType = getType message;
          content =
            (case content_of message of
               Text t \<Rightarrow> t
             | Complex parts \<Rightarrow> JSON_stringify (JArray parts))
      in if messageType = ''human'' then
           addHumanMessage f new_id now
             (JSON_stringify (object_literal [(''content'', Some (JString content))])) s
         else if messageType = ''ai'' then
           (case message of
              AIMessage c tcs \<Rightarrow>
                addAIMessage f new_id now
                  (JSON_stringify
                     (object_literal
                        [(''content'', Some (JString content)),
                         (''toolCalls'',
                          Some (JArray (case tcs of None \<Rightarrow> [] | Some tc \<Rightarrow> tc)))])) s
            | _ \<Rightarrow> s)
         else if messageType = ''tool'' then
           (case message of
              ToolMessage c tool_call_id name \<Rightarrow>
                addToolMessage f new_id now tool_call_id
                  (case name of None \<Rightarrow> ''unknown'' | Some n \<Rightarrow> n)
                  (Some (JObject [])) (Some (content_value c)) s
            | _ \<Rightarrow> s)
         else s)"

text \<open>
  The second copy of \<open>addMessage\<close>, in the text that follows the proxy service in its
  file.  Its memory service is of another revision than the facade above (it passes
  the tool calls as a second argument of \<open>addAIMessage\<close>), so the copy is modelled up
  to the call it makes: \<open>None\<close> when it makes none.
\<close>

datatype service_call =
    CallAddHumanMessage string
  | CallAddAIMessage string "json list"
  | CallAddToolMessage string string json json

definition addMessage_second_copy :: "base_message \<Rightarrow> service_call option" where
  "addMessage_second_copy message =
     (let content =
            (case content_of message of
               Text t \<Rightarrow> t
             | Complex parts \<Rightarrow> JSON_stringify (JArray parts))
      in case message of
           HumanMessage c \<Rightarrow> Some (CallAddHumanMessage content)
         | AIMessage c tcs \<Rightarrow>
             Some (CallAddAIMessage content (case tcs of None \<Rightarrow> [] | Some tc \<Rightarrow> tc))
         | ToolMessage c tool_call_id name \<Rightarrow>
             Some (CallAddToolMessage tool_call_id
                     (case name of None \<Rightarrow> ''unknown'' | Some n \<Rightarrow> n)
                     (JObject []) (content_value c))
         | _ \<Rightarrow> None)"

section \<open>Example data\<close>

text \<open>Concrete repositories, workflows and nodes at which the theorems are instantiated.\<close>

definition example_repos :: repos where
  "example_repos = \<lparr>messages = [], memory = [], sessions = [], calls = []\<rparr>"

definition example_workflow :: "string option \<Rightarrow> json option \<Rightarrow> workflow" where
  "example_workflow nm agent =
     \<lparr>wf_id = Some ''w1'', wf_name = nm,
      wf_nodes =
        [(''Memory'', \<lparr>node_type = ''@n8n/n8n-nodes-langchain.memoryChatHub'', node_parameters = []\<rparr>),
         (''Chat'', \<lparr>node_type = ''@n8n/n8n-nodes-langchain.chatTrigger'',
                     node_parameters =
                       (case agent of None \<Rightarrow> [] | Some a \<Rightarrow> [(''agentName'', a)])\<rparr>)]\<rparr>"

definition example_node :: inode where
  "example_node = \<lparr>node_type = ''@n8n/n8n-nodes-langchain.memoryChatHub'', node_parameters = []\<rparr>"

definition message :: "string \<Rightarrow> string option \<Rightarrow> string \<Rightarrow> nat \<Rightarrow> string option \<Rightarrow> chat_message" where
  "message i parent r t turn =
     \<lparr>msg_id = i, msg_sessionId = ''s1'', parentMessageId = parent, msg_role = r,
      msg_createdAt = t, msg_turnId = turn\<rparr>"

definition remembered :: "string \<Rightarrow> string \<Rightarrow> string option \<Rightarrow> nat \<Rightarrow> memory_entry" where
  "remembered i node turn t =
     \<lparr>mem_id = i, mem_sessionId = ''s1'', mem_memoryNodeId = node, mem_turnId = turn,
      mem_role = ''ai'', mem_content = ''{}'', mem_name = Some ''AI'', mem_createdAt = t\<rparr>"

text \<open>
  A session in which the assistant's answer of turn \<open>T1\<close> was retried as turn \<open>T2\<close>,
  with entries of two memory nodes.
\<close>

definition retried_repos :: repos where
  "retried_repos =
     \<lparr>messages =
        [message ''m1'' None ''human'' 1 None,
         message ''m2'' (Some ''m1'') ''ai'' 2 (Some ''T1''),
         message ''m3'' (Some ''m1'') ''ai'' 3 (Some ''T2'')],
      memory =
        [remembered ''e1'' ''n1'' (Some ''T1'') 2,
         remembered ''e2'' ''n1'' (Some ''T2'') 3,
         remembered ''e3'' ''n2'' (Some ''T2'') 3,
         remembered ''e4'' ''n1'' None 4],
      sessions = [], calls = []\<rparr>"

text \<open>A session with its first human message only.\<close>

definition fresh_repos :: repos where
  "fresh_repos =
     \<lparr>messages = [message ''m1'' None ''human'' 1 None],
      memory = [remembered ''e1'' ''n1'' (Some ''T1'') 2],
      sessions = [], calls = []\<rparr>"

text \<open>
  A tree in which the message \<open>a\<close> was superseded by its sibling \<open>b\<close> after it had
  got two children, \<open>c1\<close> and then \<open>c2\<close>.
\<close>

definition superseded_tree :: "chat_message list" where
  "superseded_tree =
     [message ''r'' None ''human'' 1 None,
      message ''a'' (Some ''r'') ''ai'' 2 (Some ''T1''),
      message ''b'' (Some ''r'') ''ai'' 3 (Some ''T2''),
      message ''c1'' (Some ''a'') ''human'' 4 None,
      message ''c2'' (Some ''a'') ''human'' 5 None]"

text \<open>A tree in which the answer to \<open>r\<close> was retried, and the first answer had a reply.\<close>

definition retried_tree :: "chat_message list" where
  "retried_tree =
     [message ''r'' None ''human'' 1 None,
      message ''c1'' (Some ''r'') ''ai'' 2 (Some ''T1''),
      message ''d'' (Some ''c1'') ''human'' 3 None,
      message ''c2'' (Some ''r'') ''ai'' 4 (Some ''T2'')]"

text \<open>Repositories in which the session \<open>s1\<close> is stored for the owner \<open>u2\<close>.\<close>

definition other_owner_repos :: repos where
  "other_owner_repos =
     \<lparr>messages = [], memory = [],
      sessions =
        [\<lparr>session_id = ''s1'', session_ownerId = OwnerString ''u2'', session_title = ''Theirs'',
          session_lastMessageAt = 1, session_tools = [], session_provider = ''n8n'',
          session_credentialId = None, session_model = None, session_workflowId = None,
          session_agentId = None, session_agentName = ''Other''\<rparr>],
      calls = []\<rparr>"

text \<open>
  A tree in which the answer to \<open>r\<close> was retried twice, the two retries stored with the
  same creation time, and the first answer had a reply.
\<close>

definition tied_tree :: "chat_message list" where
  "tied_tree =
     [message ''r'' None ''human'' 1 None,
      message ''c1'' (Some ''r'') ''ai'' 2 (Some ''T1''),
      message ''d'' (Some ''c1'') ''human'' 3 None,
      message ''c3'' (Some ''r'') ''ai'' 4 (Some ''T3''),
      message ''c2'' (Some ''r'') ''ai'' 4 (Some ''T2'')]"

section \<open>Access control\<close>

text \<open>
  C6: a request for a facade is rejected with an error, with no access to the
  repositories, when the type of the requesting node is not an allowed one or when
  no owner is supplied; when both checks pass, the facade is returned.  The
  repositories are as they were in each case.
\<close>

theorem getChatHubProxy_access_control:
  "(if isAllowedNode (node_type node) \<and> oid \<noteq> None \<and> oid \<noteq> Some (OwnerString [])
    then fst (getChatHubProxy w node sid nid tid oid s) =
           Inr (makeChatHubOperations sid nid tid (the oid) (wf_id w) (extractAgentName w))
    else (\<exists>e. fst (getChatHubProxy w node sid nid tid oid s) = Inl e))
   \<and> snd (getChatHubProxy w node sid nid tid oid s) = s"
  by (auto simp: getChatHubProxy_def validateRequest_def split: option.splits)

section \<open>Session bootstrap\<close>

lemma ensureSession_present:
  assumes "list_ex (\<lambda>x. session_id x = sessionId f \<and> session_ownerId x = ownerId f) (sessions s)"
  shows "ensureSession f title now s = (Inr (), called (ExistsById (sessionId f) (ownerId f)) s)"
  using assms by (simp add: ensureSession_def ensureSession_among_def existsById_def)

lemma sessions_called [simp]: "sessions (called c s) = sessions s"
  by (simp add: called_def)

lemma memory_called [simp]: "memory (called c s) = memory s"
  by (simp add: called_def)

lemma messages_called [simp]: "messages (called c s) = messages s"
  by (simp add: called_def)

lemma calls_called [simp]: "calls (called c s) = calls s @ [c]"
  by (simp add: called_def)

lemma ensureSession_absent_calls:
  assumes "\<not> list_ex (\<lambda>x. session_id x = sessionId f \<and> session_ownerId x = ownerId f) (sessions s)"
  shows "calls (snd (ensureSession f title now s)) =
           calls s @ [ExistsById (sessionId f) (ownerId f), CreateChatSession (sessionId f)]"
  using assms
  by (simp add: ensureSession_def ensureSession_among_def existsById_def createChatSession_def Let_def called_def)

lemma ensureSession_fresh:
  assumes "\<not> list_ex (\<lambda>x. session_id x = sessionId f) (sessions s)"
  shows "fst (ensureSession f title now s) = Inr ()"
    and "\<exists>r. sessions (snd (ensureSession f title now s)) = sessions s @ [r]
            \<and> session_id r = sessionId f \<and> session_ownerId r = ownerId f
            \<and> session_agentName r = agentName f \<and> session_workflowId r = workflowId f
            \<and> session_title r =
                (case title of None \<Rightarrow> agentName f | Some t \<Rightarrow> if t \<noteq> [] then t else agentName f)"
proof -
  from assms have ne: "\<not> list_ex (\<lambda>x. session_id x = sessionId f \<and> session_ownerId x = ownerId f) (sessions s)"
    by (auto simp: list_ex_iff)
  show "fst (ensureSession f title now s) = Inr ()"
    using assms ne
    by (simp add: ensureSession_def ensureSession_among_def existsById_def createChatSession_def Let_def called_def)
  show "\<exists>r. sessions (snd (ensureSession f title now s)) = sessions s @ [r]
            \<and> session_id r = sessionId f \<and> session_ownerId r = ownerId f
            \<and> session_agentName r = agentName f \<and> session_workflowId r = workflowId f
            \<and> session_title r =
                (case title of None \<Rightarrow> agentName f | Some t \<Rightarrow> if t \<noteq> [] then t else agentName f)"
    using assms ne
    by (simp add: ensureSession_def ensureSession_among_def existsById_def createChatSession_def Let_def called_def)
qed

lemma ensureSession_ok_present:
  assumes "fst (ensureSession f title now s) = Inr ()"
  shows "list_ex (\<lambda>x. session_id x = sessionId f \<and> session_ownerId x = ownerId f)
           (sessions (snd (ensureSession f title now s)))"
  using assms
  by (auto simp: ensureSession_def ensureSession_among_def existsById_def createChatSession_def
      Let_def called_def split: if_splits)

lemma ensureSession_twice:
  assumes "fst (ensureSession f title now s) = Inr ()"
  shows "ensureSession f title' now' (snd (ensureSession f title now s)) =
           (Inr (), called (ExistsById (sessionId f) (ownerId f)) (snd (ensureSession f title now s)))"
  by (rule ensureSession_present) (rule ensureSession_ok_present [OF assms])

lemma extractAgentName_set:
  assumes "find (\<lambda>n. node_type n = ''@n8n/n8n-nodes-langchain.chatTrigger'') (map snd (wf_nodes w)) = Some n"
    and "map_of (node_parameters n) ''agentName'' = Some (JString a)" and "trim a \<noteq> []"
  shows "extractAgentName w = a"
  using assms by (simp add: extractAgentName_def)

lemma extractAgentName_unset:
  assumes "\<forall>n a. find (\<lambda>n. node_type n = ''@n8n/n8n-nodes-langchain.chatTrigger'') (map snd (wf_nodes w)) = Some n
             \<longrightarrow> map_of (node_parameters n) ''agentName'' = Some (JString a) \<longrightarrow> trim a = []"
  shows "extractAgentName w =
          (case wf_name w of None \<Rightarrow> NAME_FALLBACK
           | Some nm \<Rightarrow> if trim nm \<noteq> [] then nm else NAME_FALLBACK)"
proof -
  have t: "trim [] = []" by (simp add: trim_def)
  have "workflow_name_or_default w = (case wf_name w of None \<Rightarrow> NAME_FALLBACK
           | Some nm \<Rightarrow> if trim nm \<noteq> [] then nm else NAME_FALLBACK)"
    using t by (auto simp: workflow_name_or_default_def split: option.splits)
  moreover have "extractAgentName w = workflow_name_or_default w"
    using assms
    by (auto simp: extractAgentName_def Let_def split: option.splits json.splits)
  ultimately show ?thesis by simp
qed


lemma ensureSession_other_owner:
  assumes "\<not> list_ex (\<lambda>x. session_id x = sessionId f \<and> session_ownerId x = ownerId f) (sessions s)"
    and "list_ex (\<lambda>x. session_id x = sessionId f) (sessions s)"
  shows "fst (ensureSession f title now s) = Inl UniqueViolation"
    and "sessions (snd (ensureSession f title now s)) = sessions s"
  using assms
  by (simp_all add: ensureSession_def ensureSession_among_def existsById_def createChatSession_def
      Let_def called_def)

text \<open>
  C8, as the code has it: \<open>ensureSession\<close> issues a create exactly when no session with
  the id exists for the owner.  The create appends one record when no session with
  the id is stored for any owner; when the id is stored for another owner, the
  uniqueness violation of the repository is returned and nothing is created.  The
  title of a created record is the supplied title when that is not empty, and the
  agent name otherwise.  A second call after a successful one makes no create and
  returns no error.  The agent name of a facade is the one extracted from the
  workflow: the \<open>agentName\<close> of the chat trigger when it is a string that is not blank,
  and otherwise the name of the workflow when that is not blank, and otherwise the
  default name.
\<close>

theorem ensureSession_create_if_absent:
  "(if list_ex (\<lambda>x. session_id x = sessionId f \<and> session_ownerId x = ownerId f) (sessions s)
    then ensureSession f title now s =
           (Inr (), called (ExistsById (sessionId f) (ownerId f)) s)
    else calls (snd (ensureSession f title now s)) =
           calls s @ [ExistsById (sessionId f) (ownerId f), CreateChatSession (sessionId f)]
         \<and> (if list_ex (\<lambda>x. session_id x = sessionId f) (sessions s)
            then fst (ensureSession f title now s) = Inl UniqueViolation
                 \<and> sessions (snd (ensureSession f title now s)) = sessions s
            else fst (ensureSession f title now s) = Inr ()
                 \<and> (\<exists>r. sessions (snd (ensureSession f title now s)) = sessions s @ [r]
                       \<and> session_id r = sessionId f \<and> session_ownerId r = ownerId f
                       \<and> session_agentName r = agentName f
                       \<and> session_workflowId r = workflowId f
                       \<and> session_title r =
                           (case title of
                              None \<Rightarrow> agentName f
                            | Some t \<Rightarrow> if t \<noteq> [] then t else agentName f))))
   \<and> (fst (ensureSession f title now s) = Inr () \<longrightarrow>
        ensureSession f title' now' (snd (ensureSession f title now s)) =
          (Inr (), called (ExistsById (sessionId f) (ownerId f))
                     (snd (ensureSession f title now s))))
   \<and> (fst (getChatHubProxy w node sid nid tid oid s) = Inr f \<longrightarrow>
        agentName f = extractAgentName w)
   \<and> (\<forall>n a. find (\<lambda>n. node_type n = ''@n8n/n8n-nodes-langchain.chatTrigger'')
               (map snd (wf_nodes w)) = Some n
             \<longrightarrow> map_of (node_parameters n) ''agentName'' = Some (JString a)
             \<longrightarrow> trim a \<noteq> [] \<longrightarrow> extractAgentName w = a)
   \<and> ((\<forall>n a. find (\<lambda>n. node_type n = ''@n8n/n8n-nodes-langchain.chatTrigger'')
                (map snd (wf_nodes w)) = Some n
              \<longrightarrow> map_of (node_parameters n) ''agentName'' = Some (JString a)
              \<longrightarrow> trim a = [])
        \<longrightarrow> extractAgentName w =
              (case wf_name w of
                 None \<Rightarrow> NAME_FALLBACK
               | Some nm \<Rightarrow> if trim nm \<noteq> [] then nm else NAME_FALLBACK))"
proof -
  let ?mine = "list_ex (\<lambda>x. session_id x = sessionId f \<and> session_ownerId x = ownerId f) (sessions s)"
  let ?stored = "list_ex (\<lambda>x. session_id x = sessionId f) (sessions s)"
  have create: "if ?mine
    then ensureSession f title now s =
           (Inr (), called (ExistsById (sessionId f) (ownerId f)) s)
    else calls (snd (ensureSession f title now s)) =
           calls s @ [ExistsById (sessionId f) (ownerId f), CreateChatSession (sessionId f)]
         \<and> (if ?stored
            then fst (ensureSession f title now s) = Inl UniqueViolation
                 \<and> sessions (snd (ensureSession f title now s)) = sessions s
            else fst (ensureSession f title now s) = Inr ()
                 \<and> (\<exists>r. sessions (snd (ensureSession f title now s)) = sessions s @ [r]
                       \<and> session_id r = sessionId f \<and> session_ownerId r = ownerId f
                       \<and> session_agentName r = agentName f
                       \<and> session_workflowId r = workflowId f
                       \<and> session_title r =
                           (case title of
                              None \<Rightarrow> agentName f
                            | Some t \<Rightarrow> if t \<noteq> [] then t else agentName f)))"
  proof (cases ?mine)
    case True
    then show ?thesis using ensureSession_present [of f s title now] by simp
  next
    case absent: False
    note issued = ensureSession_absent_calls [OF absent, of title now]
    show ?thesis
    proof (cases ?stored)
      case True
      with absent issued ensureSession_other_owner [OF absent True, of title now]
      show ?thesis by simp
    next
      case False
      with absent issued ensureSession_fresh [OF False, of title now]
      show ?thesis by simp
    qed
  qed
  have again: "fst (ensureSession f title now s) = Inr () \<longrightarrow>
        ensureSession f title' now' (snd (ensureSession f title now s)) =
          (Inr (), called (ExistsById (sessionId f) (ownerId f))
                     (snd (ensureSession f title now s)))"
    using ensureSession_twice by (intro impI)
  have name: "fst (getChatHubProxy w node sid nid tid oid s) = Inr f \<longrightarrow>
        agentName f = extractAgentName w"
    by (auto simp: getChatHubProxy_def makeChatHubOperations_def
        split: sum.splits option.splits if_splits)
  have given: "\<forall>n a. find (\<lambda>n. node_type n = ''@n8n/n8n-nodes-langchain.chatTrigger'')
               (map snd (wf_nodes w)) = Some n
             \<longrightarrow> map_of (node_parameters n) ''agentName'' = Some (JString a)
             \<longrightarrow> trim a \<noteq> [] \<longrightarrow> extractAgentName w = a"
    using extractAgentName_set by (intro allI impI)
  have fallback: "(\<forall>n a. find (\<lambda>n. node_type n = ''@n8n/n8n-nodes-langchain.chatTrigger'')
                (map snd (wf_nodes w)) = Some n
              \<longrightarrow> map_of (node_parameters n) ''agentName'' = Some (JString a)
              \<longrightarrow> trim a = [])
        \<longrightarrow> extractAgentName w =
              (case wf_name w of
                 None \<Rightarrow> NAME_FALLBACK
               | Some nm \<Rightarrow> if trim nm \<noteq> [] then nm else NAME_FALLBACK)"
    using extractAgentName_unset by (intro impI)
  from create again name given fallback show ?thesis by (intro conjI)
qed

text \<open>
  C8 as stated fails twice.  No session \<open>s1\<close> exists for the owner \<open>u1\<close>, yet no record
  is created: the id is stored for \<open>u2\<close>, and the create returns the uniqueness
  violation.  And a supplied title that is the empty string does not win: the record
  created takes the agent name.
\<close>

theorem ensureSession_counterexample:
  "fst (existsById ''s1'' (OwnerString ''u1'') other_owner_repos) = False
   \<and> fst (ensureSession
            (makeChatHubOperations ''s1'' ''n1'' None (OwnerString ''u1'') (Some ''w1'') ''Agent'')
            (Some ''My chat'') 5 other_owner_repos) = Inl UniqueViolation
   \<and> sessions (snd (ensureSession
            (makeChatHubOperations ''s1'' ''n1'' None (OwnerString ''u1'') (Some ''w1'') ''Agent'')
            (Some ''My chat'') 5 other_owner_repos)) = sessions other_owner_repos
   \<and> map session_title (sessions (snd (ensureSession
            (makeChatHubOperations ''s1'' ''n1'' None (OwnerString ''u1'') (Some ''w1'') ''Agent'')
            (Some []) 5 example_repos))) = [''Agent'']"
  by (simp add: ensureSession_def ensureSession_among_def existsById_def createChatSession_def
      Let_def called_def other_owner_repos_def example_repos_def makeChatHubOperations_def)

lemma trim_examples:
  "trim ''Support Bot'' \<noteq> []" "trim ''My Workflow'' \<noteq> []" "trim ''  '' = []"
  by (simp_all add: trim_def js_white_def code_def)

theorem ensureSession_create_if_absent_witness:
  "fst (ensureSession (makeChatHubOperations ''s1'' ''n1'' None (OwnerString ''u1'') (Some ''w1'') ''Agent'')
          (Some ''My chat'') 5 example_repos) = Inr ()
   \<and> map session_title (sessions (snd (ensureSession
          (makeChatHubOperations ''s1'' ''n1'' None (OwnerString ''u1'') (Some ''w1'') ''Agent'')
          (Some ''My chat'') 5 example_repos))) = [''My chat'']
   \<and> ensureSession (makeChatHubOperations ''s1'' ''n1'' None (OwnerString ''u1'') (Some ''w1'') ''Agent'') None 6
        (snd (ensureSession (makeChatHubOperations ''s1'' ''n1'' None (OwnerString ''u1'') (Some ''w1'') ''Agent'')
                (Some ''My chat'') 5 example_repos)) =
       (Inr (), called (ExistsById ''s1'' (OwnerString ''u1''))
          (snd (ensureSession (makeChatHubOperations ''s1'' ''n1'' None (OwnerString ''u1'') (Some ''w1'') ''Agent'')
                  (Some ''My chat'') 5 example_repos)))
   \<and> fst (ensureSession (makeChatHubOperations ''s1'' ''n1'' None (OwnerString ''u1'') (Some ''w1'') ''Agent'')
          (Some ''My chat'') 5 other_owner_repos) = Inl UniqueViolation
   \<and> extractAgentName (example_workflow (Some ''My Workflow'') (Some (JString ''Support Bot'')))
        = ''Support Bot''
   \<and> extractAgentName (example_workflow (Some ''My Workflow'') (Some (JString ''  '')))
        = ''My Workflow''"
proof -
  let ?f = "makeChatHubOperations ''s1'' ''n1'' None (OwnerString ''u1'') (Some ''w1'') ''Agent''"
  let ?run = "ensureSession ?f (Some ''My chat'') 5 example_repos"
  have none: "\<not> list_ex (\<lambda>x. session_id x = sessionId ?f \<and> session_ownerId x = ownerId ?f)
                 (sessions example_repos)"
    and fresh: "\<not> list_ex (\<lambda>x. session_id x = sessionId ?f) (sessions example_repos)"
    by (simp_all add: example_repos_def)
  have theirs: "\<not> list_ex (\<lambda>x. session_id x = sessionId ?f \<and> session_ownerId x = ownerId ?f)
                 (sessions other_owner_repos)"
    and stored: "list_ex (\<lambda>x. session_id x = sessionId ?f) (sessions other_owner_repos)"
    by (simp_all add: other_owner_repos_def makeChatHubOperations_def)
  note t1 = ensureSession_create_if_absent
      [of ?f example_repos "Some ''My chat''" 5 None 6
          "example_workflow (Some ''My Workflow'') (Some (JString ''Support Bot''))"
          example_node "''s1''" "''n1''" None "Some (OwnerString ''u1'')"]
  note t2 = ensureSession_create_if_absent
      [of ?f example_repos "Some ''My chat''" 5 None 6
          "example_workflow (Some ''My Workflow'') (Some (JString ''  ''))"
          example_node "''s1''" "''n1''" None "Some (OwnerString ''u1'')"]
  note t3 = ensureSession_create_if_absent
      [of ?f other_owner_repos "Some ''My chat''" 5 None 6
          "example_workflow (Some ''My Workflow'') (Some (JString ''  ''))"
          example_node "''s1''" "''n1''" None "Some (OwnerString ''u1'')"]
  have created: "fst ?run = Inr ()
      \<and> (\<exists>r. sessions (snd ?run) = sessions example_repos @ [r] \<and> session_title r = ''My chat'')"
    using t1 [THEN conjunct1] none fresh by auto
  then have ok: "fst ?run = Inr ()" by (rule conjunct1)
  from created have titled: "map session_title (sessions (snd ?run)) = [''My chat'']"
    by (auto simp: example_repos_def)
  have twice: "ensureSession ?f None 6 (snd ?run) =
       (Inr (), called (ExistsById (sessionId ?f) (ownerId ?f)) (snd ?run))"
    using t1 [THEN conjunct2, THEN conjunct1] ok by (rule mp)
  have refused: "fst (ensureSession ?f (Some ''My chat'') 5 other_owner_repos) = Inl UniqueViolation"
    using t3 [THEN conjunct1] theirs stored by auto
  have f1: "find (\<lambda>n. node_type n = ''@n8n/n8n-nodes-langchain.chatTrigger'')
              (map snd (wf_nodes (example_workflow (Some ''My Workflow'') (Some (JString ''Support Bot''))))) =
            Some \<lparr>node_type = ''@n8n/n8n-nodes-langchain.chatTrigger'',
                  node_parameters = [(''agentName'', JString ''Support Bot'')]\<rparr>"
    by (simp add: example_workflow_def)
  have named: "extractAgentName (example_workflow (Some ''My Workflow'') (Some (JString ''Support Bot'')))
        = ''Support Bot''"
    using t1 [THEN conjunct2, THEN conjunct2, THEN conjunct2, THEN conjunct1] f1 trim_examples(1)
    by simp
  have f2: "find (\<lambda>n. node_type n = ''@n8n/n8n-nodes-langchain.chatTrigger'')
              (map snd (wf_nodes (example_workflow (Some ''My Workflow'') (Some (JString ''  ''))))) =
            Some \<lparr>node_type = ''@n8n/n8n-nodes-langchain.chatTrigger'',
                  node_parameters = [(''agentName'', JString ''  '')]\<rparr>"
    by (simp add: example_workflow_def)
  have unnamed: "extractAgentName (example_workflow (Some ''My Workflow'') (Some (JString ''  '')))
        = ''My Workflow''"
    using t2 [THEN conjunct2, THEN conjunct2, THEN conjunct2, THEN conjunct2] f2 trim_examples(2,3)
    by (simp add: example_workflow_def)
  have ids: "sessionId ?f = ''s1''" "ownerId ?f = OwnerString ''u1''"
    by (simp_all add: makeChatHubOperations_def)
  from ok titled twice refused named unnamed show ?thesis
    unfolding ids by (intro conjI)
qed

lemma ensureSession_among_duplicate:
  assumes "\<not> list_ex (\<lambda>x. session_id x = sessionId f \<and> session_ownerId x = ownerId f) (sessions s)"
    and "list_ex (\<lambda>x. session_id x = sessionId f)
           (sessions (others (called (ExistsById (sessionId f) (ownerId f)) s)))"
  shows "ensureSession_among others f title now s =
           (Inl UniqueViolation,
            called (CreateChatSession (sessionId f))
              (others (called (ExistsById (sessionId f) (ownerId f)) s)))"
  using assms
  by (simp add: ensureSession_among_def existsById_def createChatSession_def Let_def)

text \<open>
  C9, as the code has it: when another execution creates the session between the
  existence check and the create, the create fails with the uniqueness violation of
  the repository, and \<open>ensureSession\<close>, which catches nothing, returns that error to
  its caller.  The sessions are those the other execution left.
\<close>

theorem ensureSession_race_surfaces_error:
  "\<not> list_ex (\<lambda>x. session_id x = sessionId f \<and> session_ownerId x = ownerId f) (sessions s)
   \<Longrightarrow> list_ex (\<lambda>x. session_id x = sessionId f)
         (sessions (others (called (ExistsById (sessionId f) (ownerId f)) s)))
   \<Longrightarrow> fst (ensureSession_among others f title now s) = Inl UniqueViolation
       \<and> sessions (snd (ensureSession_among others f title now s)) =
           sessions (others (called (ExistsById (sessionId f) (ownerId f)) s))"
  by (simp add: ensureSession_among_duplicate)

text \<open>
  C9 as stated fails: two executions bootstrap the session \<open>s1\<close> of the owner \<open>u1\<close>,
  the other one creates it first, and this one returns the uniqueness violation.
\<close>

theorem ensureSession_race_counterexample:
  "fst (ensureSession_among
          (other_execution_creates
             \<lparr>session_id = ''s1'', session_ownerId = OwnerString ''u1'', session_title = ''Agent'',
              session_lastMessageAt = 4, session_tools = [], session_provider = ''n8n'',
              session_credentialId = None, session_model = None,
              session_workflowId = Some ''w1'', session_agentId = None,
              session_agentName = ''Agent''\<rparr>)
          (makeChatHubOperations ''s1'' ''n1'' None (OwnerString ''u1'') (Some ''w1'') ''Agent'')
          None 5 example_repos) = Inl UniqueViolation"
  by (simp add: ensureSession_among_def existsById_def createChatSession_def Let_def
      other_execution_creates_def example_repos_def makeChatHubOperations_def called_def)

theorem ensureSession_race_surfaces_error_witness:
  "fst (ensureSession_among
          (other_execution_creates
             \<lparr>session_id = ''s1'', session_ownerId = OwnerString ''u1'', session_title = ''Agent'',
              session_lastMessageAt = 4, session_tools = [], session_provider = ''n8n'',
              session_credentialId = None, session_model = None,
              session_workflowId = Some ''w1'', session_agentId = None,
              session_agentName = ''Agent''\<rparr>)
          (makeChatHubOperations ''s1'' ''n1'' None (OwnerString ''u1'') (Some ''w1'') ''Agent'')
          (Some ''T'') 5 example_repos) = Inl UniqueViolation
   \<and> map session_title (sessions (snd (ensureSession_among
          (other_execution_creates
             \<lparr>session_id = ''s1'', session_ownerId = OwnerString ''u1'', session_title = ''Agent'',
              session_lastMessageAt = 4, session_tools = [], session_provider = ''n8n'',
              session_credentialId = None, session_model = None,
              session_workflowId = Some ''w1'', session_agentId = None,
              session_agentName = ''Agent''\<rparr>)
          (makeChatHubOperations ''s1'' ''n1'' None (OwnerString ''u1'') (Some ''w1'') ''Agent'')
          (Some ''T'') 5 example_repos))) = [''Agent'']"
proof -
  let ?f = "makeChatHubOperations ''s1'' ''n1'' None (OwnerString ''u1'') (Some ''w1'') ''Agent''"
  let ?r = "\<lparr>session_id = ''s1'', session_ownerId = OwnerString ''u1'', session_title = ''Agent'',
              session_lastMessageAt = 4, session_tools = [], session_provider = ''n8n'',
              session_credentialId = None, session_model = None,
              session_workflowId = Some ''w1'', session_agentId = None,
              session_agentName = ''Agent''\<rparr>"
  have a: "\<not> list_ex (\<lambda>x. session_id x = sessionId ?f \<and> session_ownerId x = ownerId ?f)
              (sessions example_repos)"
    by (simp add: example_repos_def)
  have b: "list_ex (\<lambda>x. session_id x = sessionId ?f)
         (sessions (other_execution_creates ?r
            (called (ExistsById (sessionId ?f) (ownerId ?f)) example_repos)))"
    by (simp add: other_execution_creates_def createChatSession_def example_repos_def
        makeChatHubOperations_def called_def)
  have c: "sessions (other_execution_creates ?r
            (called (ExistsById (sessionId ?f) (ownerId ?f)) example_repos)) = [?r]"
    by (simp add: other_execution_creates_def createChatSession_def example_repos_def
        makeChatHubOperations_def called_def)
  show ?thesis
    using ensureSession_race_surfaces_error
            [of ?f example_repos "other_execution_creates ?r" "Some ''T''" 5] a b c
    by simp
qed

section \<open>The chain builder\<close>

lemma latest_None_iff: "latest cs = None \<longleftrightarrow> cs = []"
  by (induction cs) (auto split: option.splits)

lemma latest_in: "latest cs = Some c \<Longrightarrow> c \<in> set cs"
  by (induction cs arbitrary: c) (auto split: option.splits if_splits)

lemma later_asym: "later a b \<Longrightarrow> \<not> later b a"
  by (auto simp: later_def)

lemma not_later_trans: "\<not> later a b \<Longrightarrow> \<not> later b c \<Longrightarrow> \<not> later a c"
  by (auto simp: later_def)

lemma latest_max: "latest cs = Some c \<Longrightarrow> d \<in> set cs \<Longrightarrow> \<not> later d c"
proof (induction cs arbitrary: c)
  case Nil
  then show ?case by simp
next
  case (Cons x xs)
  show ?case
  proof (cases "latest xs")
    case None
    then have "xs = []" by (simp add: latest_None_iff)
    with Cons.prems None show ?thesis by (auto simp: later_def)
  next
    case (Some y)
    note IH = Cons.IH [OF Some]
    show ?thesis
    proof (cases "later y x")
      case True
      with Some Cons.prems(1) have c: "c = y" by simp
      show ?thesis
        using Cons.prems(2) IH True unfolding c by (auto dest: later_asym)
    next
      case False
      with Some Cons.prems(1) have c: "c = x" by simp
      show ?thesis
        using Cons.prems(2) IH False unfolding c
        by (auto simp: later_def intro: not_later_trans)
    qed
  qed
qed

lemma children_of_iff:
  "c \<in> set (children_of msgs m) \<longleftrightarrow> c \<in> set msgs \<and> parentMessageId c = Some (msg_id m)"
  by (auto simp: children_of_def)

lemma walk_active:
  "walk n msgs m = Inr chain \<Longrightarrow> (\<exists>cs. chain = m # cs) \<and> active_path msgs chain"
proof (induction n arbitrary: m chain)
  case 0
  then show ?case by simp
next
  case (Suc n)
  show ?case
  proof (cases "latest (children_of msgs m)")
    case None
    with Suc.prems show ?thesis by (auto simp: latest_None_iff)
  next
    case (Some c)
    with Suc.prems obtain tl where tl: "walk n msgs c = Inr tl" and chain: "chain = m # tl"
      by (auto split: sum.splits)
    from Suc.IH [OF tl] obtain cs where "tl = c # cs" and "active_path msgs tl" by blast
    with chain Some show ?thesis by simp
  qed
qed

lemma walk_subset:
  "walk n msgs m = Inr chain \<Longrightarrow> m \<in> set msgs \<Longrightarrow> set chain \<subseteq> set msgs"
proof (induction n arbitrary: m chain)
  case 0
  then show ?case by simp
next
  case (Suc n)
  show ?case
  proof (cases "latest (children_of msgs m)")
    case None
    with Suc.prems show ?thesis by auto
  next
    case (Some c)
    with Suc.prems obtain tl where tl: "walk n msgs c = Inr tl" and chain: "chain = m # tl"
      by (auto split: sum.splits)
    from Some have "c \<in> set msgs"
      using latest_in children_of_iff by blast
    with Suc.IH [OF tl] chain Suc.prems(2) show ?thesis by simp
  qed
qed


lemma rooted_parent_below:
  "rooted (m # p) \<Longrightarrow> x \<in> set (m # p) \<Longrightarrow> parentMessageId x = Some i
     \<Longrightarrow> \<exists>y \<in> set p. msg_id y = i"
proof (induction p arbitrary: m)
  case Nil
  then show ?case by simp
next
  case (Cons y ys)
  show ?case
  proof (cases "x = m")
    case True
    with Cons.prems show ?thesis by auto
  next
    case False
    with Cons.prems have "x \<in> set (y # ys)" and "rooted (y # ys)" by auto
    from Cons.IH [OF this(2) this(1) Cons.prems(3)] show ?thesis by auto
  qed
qed

lemma same_id:
  "distinct (map msg_id msgs) \<Longrightarrow> x \<in> set msgs \<Longrightarrow> y \<in> set msgs \<Longrightarrow> msg_id x = msg_id y
     \<Longrightarrow> x = y"
  by (meson distinct_map inj_onD)

lemma child_is_new:
  assumes ids: "distinct (map msg_id msgs)" and path: "rooted (m # p)"
    and dist: "distinct (m # p)" and sub: "set (m # p) \<subseteq> set msgs"
    and c: "c \<in> set msgs" "parentMessageId c = Some (msg_id m)"
  shows "c \<notin> set (m # p)"
proof
  assume "c \<in> set (m # p)"
  from rooted_parent_below [OF path this c(2)] obtain y where y: "y \<in> set p" "msg_id y = msg_id m"
    by blast
  with sub have in_msgs: "y \<in> set msgs" "m \<in> set msgs" by auto
  have "y = m" using ids in_msgs y(2) by (rule same_id)
  with y(1) dist show False by simp
qed

lemma walk_enough_fuel:
  assumes ids: "distinct (map msg_id msgs)"
  shows "rooted (m # p) \<Longrightarrow> distinct (m # p) \<Longrightarrow> set (m # p) \<subseteq> set msgs
     \<Longrightarrow> length msgs \<le> n + length p \<Longrightarrow> \<exists>chain. walk n msgs m = Inr chain"
proof (induction n arbitrary: m p)
  case 0
  have "length (m # p) = card (set (m # p))"
    using "0.prems"(2) by (simp only: distinct_card)
  also have "\<dots> \<le> card (set msgs)"
    using "0.prems"(3) by (intro card_mono) simp_all
  also have "\<dots> \<le> length msgs" by (rule card_length)
  finally show ?case using "0.prems"(4) by simp
next
  case (Suc n)
  show ?case
  proof (cases "latest (children_of msgs m)")
    case None
    then show ?thesis by simp
  next
    case (Some c)
    then have c: "c \<in> set msgs" "parentMessageId c = Some (msg_id m)"
      using latest_in children_of_iff by blast+
    have new: "c \<notin> set (m # p)"
      using ids Suc.prems(1,2,3) c by (rule child_is_new)
    have "\<exists>chain. walk n msgs c = Inr chain"
    proof (rule Suc.IH)
      show "rooted (c # m # p)" using c(2) Suc.prems(1) by simp
      show "distinct (c # m # p)" using new Suc.prems(2) by simp
      show "set (c # m # p) \<subseteq> set msgs" using c(1) Suc.prems(3) by simp
      show "length msgs \<le> n + length (m # p)" using Suc.prems(4) by simp
    qed
    with Some show ?thesis by auto
  qed
qed

lemma active_next:
  "active_path msgs chain \<Longrightarrow> m \<in> set chain \<Longrightarrow> latest (children_of msgs m) = Some c
     \<Longrightarrow> c \<in> set chain"
proof (induction chain)
  case Nil
  then show ?case by simp
next
  case (Cons x xs)
  show ?case
  proof (cases xs)
    case Nil
    with Cons.prems(1) have "children_of msgs x = []" by simp
    moreover from Nil Cons.prems(2) have "m = x" by simp
    ultimately have "latest (children_of msgs m) = None" by simp
    with Cons.prems(3) show ?thesis by simp
  next
    case (Cons y ys)
    with Cons.prems(1) have step: "latest (children_of msgs x) = Some y"
      and rest: "active_path msgs xs" by simp_all
    show ?thesis
    proof (cases "m = x")
      case True
      with step Cons.prems(3) have "c = y" by simp
      with Cons show ?thesis by simp
    next
      case False
      with Cons.prems(2) have "m \<in> set xs" by simp
      from Cons.IH [OF rest this Cons.prems(3)] show ?thesis by simp
    qed
  qed
qed

lemma active_selected:
  "active_path msgs (r # cs) \<Longrightarrow> x \<in> set cs
     \<Longrightarrow> \<exists>m \<in> set (r # cs). latest (children_of msgs m) = Some x"
proof (induction cs arbitrary: r)
  case Nil
  then show ?case by simp
next
  case (Cons y ys)
  show ?case
  proof (cases "x = y")
    case True
    with Cons.prems(1) show ?thesis by auto
  next
    case False
    with Cons.prems have "x \<in> set ys" and "active_path msgs (y # ys)" by auto
    from Cons.IH [OF this(2) this(1)] show ?thesis by auto
  qed
qed

text \<open>On an active path from a root, a message with a parent has its parent on the path.\<close>

lemma parent_on_path:
  assumes ids: "distinct (map msg_id msgs)" and path: "active_path msgs (r # cs)"
    and sub: "set (r # cs) \<subseteq> set msgs" and root: "parentMessageId r = None"
    and x: "x \<in> set (r # cs)" "parentMessageId x = Some (msg_id a)" and a: "a \<in> set msgs"
  shows "a \<in> set (r # cs) \<and> latest (children_of msgs a) = Some x"
proof -
  from x root have "x \<in> set cs" by auto
  from active_selected [OF path this] obtain m where
    m: "m \<in> set (r # cs)" "latest (children_of msgs m) = Some x" by blast
  then have "parentMessageId x = Some (msg_id m)"
    using latest_in children_of_iff by blast
  with x(2) have "msg_id m = msg_id a" by simp
  moreover from m(1) sub have "m \<in> set msgs" by auto
  ultimately have "m = a" using same_id [OF ids _ a] by blast
  with m show ?thesis by simp
qed

lemma descendant_on_path:
  assumes ids: "distinct (map msg_id msgs)" and path: "active_path msgs (r # cs)"
    and sub: "set (r # cs) \<subseteq> set msgs" and root: "parentMessageId r = None"
  shows "descendant msgs d a \<Longrightarrow> a \<in> set msgs \<Longrightarrow> d \<in> set (r # cs) \<Longrightarrow> a \<in> set (r # cs)"
proof (induction rule: descendant.induct)
  case (child c a)
  from parent_on_path [OF ids path sub root child.prems(2) child.hyps(2) child.prems(1)]
  show ?case by simp
next
  case (below c a d)
  have "c \<in> set msgs"
    using below.hyps(1) by (cases rule: descendant.cases) auto
  from parent_on_path [OF ids path sub root below.prems(2) below.hyps(3) this]
  have "c \<in> set (r # cs)" by simp
  with below.IH below.prems(1) show ?case by blast
qed


lemma latest_of_two:
  assumes "set (children_of msgs m) = {c1, c2}" and "msg_createdAt c1 < msg_createdAt c2"
  shows "latest (children_of msgs m) = Some c2"
proof (cases "latest (children_of msgs m)")
  case None
  with assms(1) show ?thesis by (simp add: latest_None_iff)
next
  case (Some x)
  have "later c2 c1" using assms(2) by (simp add: later_def)
  moreover have "\<not> later c2 x"
    using Some assms(1) by (intro latest_max) auto
  ultimately have "x \<noteq> c1" by auto
  moreover have "x \<in> {c1, c2}"
    using latest_in [OF Some] assms(1) by simp
  ultimately show ?thesis using Some by simp
qed

lemma buildMessageHistory_rooted:
  assumes ids: "distinct (map msg_id msgs)"
    and root: "filter (\<lambda>m. parentMessageId m = None) msgs = [r]"
  shows "\<exists>cs. buildMessageHistory msgs = Inr (r # cs) \<and> active_path msgs (r # cs)
           \<and> set (r # cs) \<subseteq> set msgs \<and> parentMessageId r = None"
proof -
  have "r \<in> set (filter (\<lambda>m. parentMessageId m = None) msgs)"
    by (simp add: root)
  then have r: "r \<in> set msgs" "parentMessageId r = None" by auto
  then have ne: "msgs \<noteq> []" by auto
  have "\<exists>chain. walk (length msgs) msgs r = Inr chain"
    using ids by (rule walk_enough_fuel [where p = "[]"]) (use r in simp_all)
  then obtain chain where chain: "walk (length msgs) msgs r = Inr chain" by blast
  from walk_active [OF chain] obtain cs where cs: "chain = r # cs" "active_path msgs chain"
    by blast
  from walk_subset [OF chain r(1)] have "set chain \<subseteq> set msgs" .
  moreover have "buildMessageHistory msgs = Inr chain"
    using ne root chain by (simp add: buildMessageHistory_def)
  ultimately show ?thesis using cs r(2) by auto
qed

lemma active_path_nth:
  "active_path msgs chain \<Longrightarrow> Suc i < length chain
   \<Longrightarrow> latest (children_of msgs (chain ! i)) = Some (chain ! Suc i)"
proof (induction chain arbitrary: i)
  case Nil
  then show ?case by simp
next
  case (Cons x xs)
  then obtain y ys where xs: "xs = y # ys" by (cases xs) auto
  with Cons.prems(1) have step: "latest (children_of msgs x) = Some y"
    and rest: "active_path msgs xs" by simp_all
  show ?case
  proof (cases i)
    case 0
    with step xs show ?thesis by simp
  next
    case (Suc j)
    with Cons.prems(2) have "Suc j < length xs" by simp
    from Cons.IH [OF rest this] Suc show ?thesis by simp
  qed
qed

lemma active_path_leaf:
  "active_path msgs chain \<Longrightarrow> chain \<noteq> [] \<Longrightarrow> children_of msgs (last chain) = []"
proof (induction chain)
  case Nil
  then show ?case by simp
next
  case (Cons x xs)
  show ?case
  proof (cases xs)
    case Nil
    with Cons.prems(1) show ?thesis by simp
  next
    case (Cons y ys)
    with Cons.prems(1) have "active_path msgs xs" by simp
    with Cons.IH Cons show ?thesis by simp
  qed
qed

lemma not_later_iff:
  "\<not> later d c \<longleftrightarrow>
     msg_createdAt d < msg_createdAt c
     \<or> (msg_createdAt d = msg_createdAt c \<and> msg_id d \<le> msg_id c)"
  by (auto simp: later_def)

lemma latest_Some: "cs \<noteq> [] \<Longrightarrow> \<exists>c. latest cs = Some c"
  by (cases "latest cs") (simp_all add: latest_None_iff)

text \<open>
  C1, as the chain builder does it: for stored messages with distinct ids and one root,
  the builder returns a chain that starts at the root and ends at a message without
  children.  Each next message of the chain is a child of the message before it, and
  every child of that message was created earlier than the next message, or at the
  same time with an id that is not greater: the child created last is selected, the
  greatest id among those created last.  For a message on the chain, a child with a
  sibling created later is not on the chain, and neither is any of its descendants; a
  child created later than all its siblings is on the chain.  So when a message on
  the chain has exactly the two children \<open>c1\<close>, created earlier, and \<open>c2\<close>, created
  later, the chain contains \<open>c2\<close> and contains neither \<open>c1\<close> nor a descendant of \<open>c1\<close>.
\<close>

theorem active_chain_latest_child:
  "distinct (map msg_id msgs) \<Longrightarrow> filter (\<lambda>m. parentMessageId m = None) msgs = [r]
   \<Longrightarrow> \<exists>chain. buildMessageHistory msgs = Inr chain
         \<and> chain \<noteq> [] \<and> hd chain = r \<and> set chain \<subseteq> set msgs
         \<and> (\<forall>d \<in> set msgs. parentMessageId d \<noteq> Some (msg_id (last chain)))
         \<and> (\<forall>i. Suc i < length chain \<longrightarrow>
               chain ! Suc i \<in> set msgs
               \<and> parentMessageId (chain ! Suc i) = Some (msg_id (chain ! i))
               \<and> (\<forall>d \<in> set msgs. parentMessageId d = Some (msg_id (chain ! i)) \<longrightarrow>
                     msg_createdAt d < msg_createdAt (chain ! Suc i)
                     \<or> (msg_createdAt d = msg_createdAt (chain ! Suc i)
                         \<and> msg_id d \<le> msg_id (chain ! Suc i))))
         \<and> (\<forall>m c1 c2. m \<in> set chain \<and> c1 \<in> set msgs \<and> c2 \<in> set msgs
                 \<and> parentMessageId c1 = Some (msg_id m) \<and> parentMessageId c2 = Some (msg_id m)
                 \<and> msg_createdAt c1 < msg_createdAt c2
               \<longrightarrow> c1 \<notin> set chain \<and> (\<forall>d. descendant msgs d c1 \<longrightarrow> d \<notin> set chain))
         \<and> (\<forall>m c2. m \<in> set chain \<and> c2 \<in> set msgs \<and> parentMessageId c2 = Some (msg_id m)
                 \<and> (\<forall>d \<in> set msgs. parentMessageId d = Some (msg_id m) \<and> d \<noteq> c2
                        \<longrightarrow> msg_createdAt d < msg_createdAt c2)
               \<longrightarrow> c2 \<in> set chain)
         \<and> (\<forall>m c1 c2. m \<in> set chain \<and> set (children_of msgs m) = {c1, c2}
                 \<and> msg_createdAt c1 < msg_createdAt c2
               \<longrightarrow> c2 \<in> set chain \<and> c1 \<notin> set chain
                   \<and> (\<forall>d. descendant msgs d c1 \<longrightarrow> d \<notin> set chain))"
proof -
  assume ids: "distinct (map msg_id msgs)"
    and root: "filter (\<lambda>m. parentMessageId m = None) msgs = [r]"
  from buildMessageHistory_rooted [OF ids root] obtain cs where
    built: "buildMessageHistory msgs = Inr (r # cs)" and path: "active_path msgs (r # cs)"
    and sub: "set (r # cs) \<subseteq> set msgs" and top: "parentMessageId r = None"
    by blast
  let ?chain = "r # cs"
  have leaf: "\<forall>d \<in> set msgs. parentMessageId d \<noteq> Some (msg_id (last ?chain))"
  proof
    fix d
    assume d: "d \<in> set msgs"
    have "children_of msgs (last ?chain) = []"
      using path by (rule active_path_leaf) simp
    then have "d \<notin> set (children_of msgs (last ?chain))" by simp
    with d show "parentMessageId d \<noteq> Some (msg_id (last ?chain))"
      by (simp only: children_of_iff) blast
  qed
  have steps: "\<forall>i. Suc i < length ?chain \<longrightarrow>
               ?chain ! Suc i \<in> set msgs
               \<and> parentMessageId (?chain ! Suc i) = Some (msg_id (?chain ! i))
               \<and> (\<forall>d \<in> set msgs. parentMessageId d = Some (msg_id (?chain ! i)) \<longrightarrow>
                     msg_createdAt d < msg_createdAt (?chain ! Suc i)
                     \<or> (msg_createdAt d = msg_createdAt (?chain ! Suc i)
                         \<and> msg_id d \<le> msg_id (?chain ! Suc i)))"
  proof (intro allI impI)
    fix i
    assume i: "Suc i < length ?chain"
    from active_path_nth [OF path i]
    have sel: "latest (children_of msgs (?chain ! i)) = Some (?chain ! Suc i)" .
    from latest_in [OF sel]
    have child: "?chain ! Suc i \<in> set msgs"
      "parentMessageId (?chain ! Suc i) = Some (msg_id (?chain ! i))"
      by (simp_all only: children_of_iff)
    have others: "\<forall>d \<in> set msgs. parentMessageId d = Some (msg_id (?chain ! i)) \<longrightarrow>
                     msg_createdAt d < msg_createdAt (?chain ! Suc i)
                     \<or> (msg_createdAt d = msg_createdAt (?chain ! Suc i)
                         \<and> msg_id d \<le> msg_id (?chain ! Suc i))"
    proof (intro ballI impI)
      fix d
      assume "d \<in> set msgs" and "parentMessageId d = Some (msg_id (?chain ! i))"
      then have "d \<in> set (children_of msgs (?chain ! i))"
        by (simp only: children_of_iff)
      from latest_max [OF sel this]
      show "msg_createdAt d < msg_createdAt (?chain ! Suc i)
                     \<or> (msg_createdAt d = msg_createdAt (?chain ! Suc i)
                         \<and> msg_id d \<le> msg_id (?chain ! Suc i))"
        by (simp only: not_later_iff)
    qed
    from child others
    show "?chain ! Suc i \<in> set msgs
               \<and> parentMessageId (?chain ! Suc i) = Some (msg_id (?chain ! i))
               \<and> (\<forall>d \<in> set msgs. parentMessageId d = Some (msg_id (?chain ! i)) \<longrightarrow>
                     msg_createdAt d < msg_createdAt (?chain ! Suc i)
                     \<or> (msg_createdAt d = msg_createdAt (?chain ! Suc i)
                         \<and> msg_id d \<le> msg_id (?chain ! Suc i)))"
      by (intro conjI)
  qed
  have superseded: "c1 \<notin> set ?chain \<and> (\<forall>d. descendant msgs d c1 \<longrightarrow> d \<notin> set ?chain)"
    if m: "m \<in> set ?chain" and c1: "c1 \<in> set msgs" "parentMessageId c1 = Some (msg_id m)"
      and c2: "c2 \<in> set msgs" "parentMessageId c2 = Some (msg_id m)"
      and order: "msg_createdAt c1 < msg_createdAt c2" for m c1 c2
  proof -
    have m_in: "m \<in> set msgs" using m sub by (rule subsetD [rotated])
    have sibling: "c2 \<in> set (children_of msgs m)"
      using c2 by (simp only: children_of_iff)
    have newer: "later c2 c1" using order by (simp add: later_def)
    have out: "c1 \<notin> set ?chain"
    proof
      assume "c1 \<in> set ?chain"
      from parent_on_path [OF ids path sub top this c1(2) m_in]
      have "latest (children_of msgs m) = Some c1" by (rule conjunct2)
      from latest_max [OF this sibling] newer show False ..
    qed
    have below: "\<forall>d. descendant msgs d c1 \<longrightarrow> d \<notin> set ?chain"
    proof (intro allI impI notI)
      fix d
      assume "descendant msgs d c1" and "d \<in> set ?chain"
      with descendant_on_path [OF ids path sub top _ c1(1)] have "c1 \<in> set ?chain" .
      with out show False ..
    qed
    from out below show ?thesis by (rule conjI)
  qed
  have selected: "c2 \<in> set ?chain"
    if m: "m \<in> set ?chain" and c2: "c2 \<in> set msgs" "parentMessageId c2 = Some (msg_id m)"
      and last: "\<forall>d \<in> set msgs. parentMessageId d = Some (msg_id m) \<and> d \<noteq> c2
                        \<longrightarrow> msg_createdAt d < msg_createdAt c2" for m c2
  proof -
    have child: "c2 \<in> set (children_of msgs m)"
      using c2 by (simp only: children_of_iff)
    then have "children_of msgs m \<noteq> []" by auto
    then obtain x where x: "latest (children_of msgs m) = Some x"
      using latest_Some by blast
    from latest_in [OF x] have xc: "x \<in> set msgs" "parentMessageId x = Some (msg_id m)"
      by (simp_all only: children_of_iff)
    have "x = c2"
    proof (rule ccontr)
      assume "x \<noteq> c2"
      with last xc have "msg_createdAt x < msg_createdAt c2" by blast
      then have "later c2 x" by (simp add: later_def)
      with latest_max [OF x child] show False ..
    qed
    with x have "latest (children_of msgs m) = Some c2" by simp
    with path m show ?thesis by (rule active_next)
  qed
  have two: "c2 \<in> set ?chain \<and> c1 \<notin> set ?chain
               \<and> (\<forall>d. descendant msgs d c1 \<longrightarrow> d \<notin> set ?chain)"
    if m: "m \<in> set ?chain" and both: "set (children_of msgs m) = {c1, c2}"
      and order: "msg_createdAt c1 < msg_createdAt c2" for m c1 c2
  proof -
    have "c1 \<in> set (children_of msgs m)" "c2 \<in> set (children_of msgs m)"
      unfolding both by simp_all
    then have c: "c1 \<in> set msgs" "parentMessageId c1 = Some (msg_id m)"
      "c2 \<in> set msgs" "parentMessageId c2 = Some (msg_id m)"
      by (simp_all only: children_of_iff)
    have sel: "latest (children_of msgs m) = Some c2"
      using both order by (rule latest_of_two)
    have on: "c2 \<in> set ?chain" using path m sel by (rule active_next)
    note cut = superseded [OF m c order]
    from on cut [THEN conjunct1] cut [THEN conjunct2] show ?thesis by (intro conjI)
  qed
  have c_superseded: "\<forall>m c1 c2. m \<in> set ?chain \<and> c1 \<in> set msgs \<and> c2 \<in> set msgs
                 \<and> parentMessageId c1 = Some (msg_id m) \<and> parentMessageId c2 = Some (msg_id m)
                 \<and> msg_createdAt c1 < msg_createdAt c2
               \<longrightarrow> c1 \<notin> set ?chain \<and> (\<forall>d. descendant msgs d c1 \<longrightarrow> d \<notin> set ?chain)"
  proof (intro allI impI)
    fix m c1 c2
    assume h: "m \<in> set ?chain \<and> c1 \<in> set msgs \<and> c2 \<in> set msgs
                 \<and> parentMessageId c1 = Some (msg_id m) \<and> parentMessageId c2 = Some (msg_id m)
                 \<and> msg_createdAt c1 < msg_createdAt c2"
    note m = h [THEN conjunct1]
    note c1 = h [THEN conjunct2, THEN conjunct1]
    note c2 = h [THEN conjunct2, THEN conjunct2, THEN conjunct1]
    note p1 = h [THEN conjunct2, THEN conjunct2, THEN conjunct2, THEN conjunct1]
    note p2 = h [THEN conjunct2, THEN conjunct2, THEN conjunct2, THEN conjunct2, THEN conjunct1]
    note order = h [THEN conjunct2, THEN conjunct2, THEN conjunct2, THEN conjunct2, THEN conjunct2]
    from m c1 p1 c2 p2 order
    show "c1 \<notin> set ?chain \<and> (\<forall>d. descendant msgs d c1 \<longrightarrow> d \<notin> set ?chain)"
      by (rule superseded)
  qed
  have c_selected: "\<forall>m c2. m \<in> set ?chain \<and> c2 \<in> set msgs \<and> parentMessageId c2 = Some (msg_id m)
                 \<and> (\<forall>d \<in> set msgs. parentMessageId d = Some (msg_id m) \<and> d \<noteq> c2
                        \<longrightarrow> msg_createdAt d < msg_createdAt c2)
               \<longrightarrow> c2 \<in> set ?chain"
  proof (intro allI impI)
    fix m c2
    assume h: "m \<in> set ?chain \<and> c2 \<in> set msgs \<and> parentMessageId c2 = Some (msg_id m)
                 \<and> (\<forall>d \<in> set msgs. parentMessageId d = Some (msg_id m) \<and> d \<noteq> c2
                        \<longrightarrow> msg_createdAt d < msg_createdAt c2)"
    note m = h [THEN conjunct1]
    note c2 = h [THEN conjunct2, THEN conjunct1]
    note p2 = h [THEN conjunct2, THEN conjunct2, THEN conjunct1]
    note last = h [THEN conjunct2, THEN conjunct2, THEN conjunct2]
    from m c2 p2 last show "c2 \<in> set ?chain" by (rule selected)
  qed
  have c_two: "\<forall>m c1 c2. m \<in> set ?chain \<and> set (children_of msgs m) = {c1, c2}
                 \<and> msg_createdAt c1 < msg_createdAt c2
               \<longrightarrow> c2 \<in> set ?chain \<and> c1 \<notin> set ?chain
                   \<and> (\<forall>d. descendant msgs d c1 \<longrightarrow> d \<notin> set ?chain)"
  proof (intro allI impI)
    fix m c1 c2
    assume h: "m \<in> set ?chain \<and> set (children_of msgs m) = {c1, c2}
                 \<and> msg_createdAt c1 < msg_createdAt c2"
    note m = h [THEN conjunct1]
    note both = h [THEN conjunct2, THEN conjunct1]
    note order = h [THEN conjunct2, THEN conjunct2]
    from m both order
    show "c2 \<in> set ?chain \<and> c1 \<notin> set ?chain
                   \<and> (\<forall>d. descendant msgs d c1 \<longrightarrow> d \<notin> set ?chain)"
      by (rule two)
  qed
  have nonempty: "?chain \<noteq> []" and first: "hd ?chain = r" by simp_all
  from built nonempty first sub leaf steps c_superseded c_selected c_two
  show ?thesis by (intro exI [of _ ?chain] conjI)
qed

lemma superseded_ids: "distinct (map msg_id superseded_tree)"
  by (simp add: superseded_tree_def message_def)

text \<open>
  C1 as stated fails for a message that is not on the chain itself: in the superseded
  tree the message \<open>a\<close> has the two children \<open>c1\<close> and \<open>c2\<close>, and the chain is the
  root and \<open>b\<close>, without \<open>c2\<close>.
\<close>

theorem superseded_branch_counterexample:
  "children_of superseded_tree (message ''a'' (Some ''r'') ''ai'' 2 (Some ''T1'')) =
     [message ''c1'' (Some ''a'') ''human'' 4 None, message ''c2'' (Some ''a'') ''human'' 5 None]
   \<and> buildMessageHistory superseded_tree =
       Inr [message ''r'' None ''human'' 1 None, message ''b'' (Some ''r'') ''ai'' 3 (Some ''T2'')]"
  by (simp add: buildMessageHistory_def superseded_tree_def message_def children_of_def later_def)

lemma tied_chain:
  "buildMessageHistory tied_tree =
     Inr [message ''r'' None ''human'' 1 None, message ''c3'' (Some ''r'') ''ai'' 4 (Some ''T3'')]"
  by (simp add: buildMessageHistory_def tied_tree_def message_def children_of_def later_def)

lemma retried_tree_chain:
  "buildMessageHistory retried_tree =
     Inr [message ''r'' None ''human'' 1 None, message ''c2'' (Some ''r'') ''ai'' 4 (Some ''T2'')]"
  by (simp add: buildMessageHistory_def retried_tree_def message_def children_of_def later_def)

text \<open>
  Two trees.  In the tied tree the root has three children, the two last created at
  the same time: the chain is the root and \<open>c3\<close>, the greater id; \<open>c1\<close> and its reply
  \<open>d\<close> are not on it, and the id of \<open>c2\<close> is not greater than the id of the message
  selected.  In the retried tree the root has two children: the chain has the later
  one.
\<close>

theorem active_chain_latest_child_witness:
  "buildMessageHistory tied_tree =
     Inr [message ''r'' None ''human'' 1 None, message ''c3'' (Some ''r'') ''ai'' 4 (Some ''T3'')]
   \<and> message ''c1'' (Some ''r'') ''ai'' 2 (Some ''T1'') \<notin>
        set [message ''r'' None ''human'' 1 None, message ''c3'' (Some ''r'') ''ai'' 4 (Some ''T3'')]
   \<and> message ''d'' (Some ''c1'') ''human'' 3 None \<notin>
        set [message ''r'' None ''human'' 1 None, message ''c3'' (Some ''r'') ''ai'' 4 (Some ''T3'')]
   \<and> msg_id (message ''c2'' (Some ''r'') ''ai'' 4 (Some ''T2''))
        \<le> msg_id (message ''c3'' (Some ''r'') ''ai'' 4 (Some ''T3''))
   \<and> buildMessageHistory retried_tree =
       Inr [message ''r'' None ''human'' 1 None, message ''c2'' (Some ''r'') ''ai'' 4 (Some ''T2'')]
   \<and> message ''c2'' (Some ''r'') ''ai'' 4 (Some ''T2'') \<in>
        set [message ''r'' None ''human'' 1 None, message ''c2'' (Some ''r'') ''ai'' 4 (Some ''T2'')]
   \<and> message ''c1'' (Some ''r'') ''ai'' 2 (Some ''T1'') \<notin>
        set [message ''r'' None ''human'' 1 None, message ''c2'' (Some ''r'') ''ai'' 4 (Some ''T2'')]"
proof -
  let ?r = "message ''r'' None ''human'' 1 None"
  let ?c1 = "message ''c1'' (Some ''r'') ''ai'' 2 (Some ''T1'')"
  let ?c2 = "message ''c2'' (Some ''r'') ''ai'' 4 (Some ''T2'')"
  let ?c3 = "message ''c3'' (Some ''r'') ''ai'' 4 (Some ''T3'')"
  let ?d = "message ''d'' (Some ''c1'') ''human'' 3 None"
  have ids: "distinct (map msg_id tied_tree)"
    by (simp add: tied_tree_def message_def)
  have root: "filter (\<lambda>m. parentMessageId m = None) tied_tree = [?r]"
    by (simp add: tied_tree_def message_def)
  from active_chain_latest_child [OF ids root] obtain chain where
    built: "buildMessageHistory tied_tree = Inr chain"
    and steps: "\<forall>i. Suc i < length chain \<longrightarrow>
               chain ! Suc i \<in> set tied_tree
               \<and> parentMessageId (chain ! Suc i) = Some (msg_id (chain ! i))
               \<and> (\<forall>d \<in> set tied_tree. parentMessageId d = Some (msg_id (chain ! i)) \<longrightarrow>
                     msg_createdAt d < msg_createdAt (chain ! Suc i)
                     \<or> (msg_createdAt d = msg_createdAt (chain ! Suc i)
                         \<and> msg_id d \<le> msg_id (chain ! Suc i)))"
    and superseded: "\<forall>m c1 c2. m \<in> set chain \<and> c1 \<in> set tied_tree \<and> c2 \<in> set tied_tree
                 \<and> parentMessageId c1 = Some (msg_id m) \<and> parentMessageId c2 = Some (msg_id m)
                 \<and> msg_createdAt c1 < msg_createdAt c2
               \<longrightarrow> c1 \<notin> set chain \<and> (\<forall>d. descendant tied_tree d c1 \<longrightarrow> d \<notin> set chain)"
    by (elim exE conjE)
  from built have chain: "chain = [?r, ?c3]" by (simp add: tied_chain)
  have prem: "?r \<in> set chain \<and> ?c1 \<in> set tied_tree \<and> ?c2 \<in> set tied_tree
                 \<and> parentMessageId ?c1 = Some (msg_id ?r) \<and> parentMessageId ?c2 = Some (msg_id ?r)
                 \<and> msg_createdAt ?c1 < msg_createdAt ?c2"
    by (simp add: chain tied_tree_def) (simp add: message_def)
  note cut = superseded [rule_format, OF prem]
  from cut have out1: "?c1 \<notin> set chain" by (rule conjunct1)
  have stored: "?d \<in> set tied_tree" by (simp add: tied_tree_def)
  have parent: "parentMessageId ?d = Some (msg_id ?c1)" by (simp add: message_def)
  have below: "descendant tied_tree ?d ?c1"
    using stored parent by (rule descendant.child)
  from cut [THEN conjunct2, rule_format, OF below] have outd: "?d \<notin> set chain" .
  have one: "Suc 0 < length chain" by (simp add: chain)
  have c2: "?c2 \<in> set tied_tree" by (simp add: tied_tree_def)
  have c2_parent: "parentMessageId ?c2 = Some (msg_id (chain ! 0))"
    by (simp add: chain) (simp add: message_def)
  from steps [rule_format, OF one, THEN conjunct2, THEN conjunct2, rule_format, OF c2 c2_parent]
  have "msg_createdAt ?c2 < msg_createdAt (chain ! Suc 0)
          \<or> (msg_createdAt ?c2 = msg_createdAt (chain ! Suc 0) \<and> msg_id ?c2 \<le> msg_id (chain ! Suc 0))" .
  moreover have "\<not> msg_createdAt ?c2 < msg_createdAt (chain ! Suc 0)"
    by (simp add: chain) (simp add: message_def)
  ultimately have tie: "msg_id ?c2 \<le> msg_id ?c3"
    by (simp add: chain)
  have ids2: "distinct (map msg_id retried_tree)"
    by (simp add: retried_tree_def message_def)
  have root2: "filter (\<lambda>m. parentMessageId m = None) retried_tree = [?r]"
    by (simp add: retried_tree_def message_def)
  from active_chain_latest_child [OF ids2 root2] obtain chain2 where
    built2: "buildMessageHistory retried_tree = Inr chain2"
    and two: "\<forall>m c1 c2. m \<in> set chain2 \<and> set (children_of retried_tree m) = {c1, c2}
                 \<and> msg_createdAt c1 < msg_createdAt c2
               \<longrightarrow> c2 \<in> set chain2 \<and> c1 \<notin> set chain2
                   \<and> (\<forall>d. descendant retried_tree d c1 \<longrightarrow> d \<notin> set chain2)"
    by (elim exE conjE)
  from built2 have chain2: "chain2 = [?r, ?c2]" by (simp add: retried_tree_chain)
  have on: "?r \<in> set chain2" by (simp add: chain2)
  have both: "set (children_of retried_tree ?r) = {?c1, ?c2}"
    by (simp add: retried_tree_def message_def children_of_def)
  have order: "msg_createdAt ?c1 < msg_createdAt ?c2"
    by (simp add: message_def)
  have prem2: "?r \<in> set chain2 \<and> set (children_of retried_tree ?r) = {?c1, ?c2}
                 \<and> msg_createdAt ?c1 < msg_createdAt ?c2"
    using on both order by (intro conjI)
  note sel = two [rule_format, OF prem2]
  from sel have in2: "?c2 \<in> set chain2" by (rule conjunct1)
  from sel [THEN conjunct2] have out2: "?c1 \<notin> set chain2" by (rule conjunct1)
  from tied_chain out1 outd tie retried_tree_chain in2 out2 show ?thesis
    unfolding chain chain2 by (intro conjI)
qed

section \<open>Reading memory\<close>

lemma buildMessageHistory_Nil: "buildMessageHistory [] = Inr []"
  by (simp add: buildMessageHistory_def)

lemma extractTurnIds_Nil: "extractTurnIds [] = []"
  by (simp add: extractTurnIds_def List.map_filter_simps)

lemma map_filter_no_ai:
  "\<forall>m \<in> set chain. msg_role m \<noteq> ''ai'' \<Longrightarrow> List.map_filter turn_of chain = []"
  by (induction chain) (simp_all add: List.map_filter_simps turn_of_def)

lemma extractTurnIds_no_ai:
  "\<forall>m \<in> set chain. msg_role m \<noteq> ''ai'' \<Longrightarrow> extractTurnIds chain = []"
  by (simp add: extractTurnIds_def map_filter_no_ai)

lemma getMemory_no_turns:
  assumes "buildMessageHistory (fst (getManyBySessionId (sessionId f) s)) = Inr chain"
    and "extractTurnIds chain = []"
  shows "getMemory f s = (Inr [], called (GetManyBySessionId (sessionId f)) s)"
  using assms by (simp add: getMemory_def getManyBySessionId_def Let_def)

text \<open>
  C5: when the active chain of the session holds no assistant message, no turn id is
  extracted, and \<open>getMemory\<close> returns the empty list as a normal result; the only
  repository call it made is the read of the messages, and the memory store is as it
  was.
\<close>

theorem getMemory_without_assistant_turns:
  "buildMessageHistory (fst (getManyBySessionId (sessionId f) s)) = Inr chain
   \<Longrightarrow> \<forall>m \<in> set chain. msg_role m \<noteq> ''ai''
   \<Longrightarrow> extractTurnIds chain = []
       \<and> fst (getMemory f s) = Inr []
       \<and> calls (snd (getMemory f s)) = calls s @ [GetManyBySessionId (sessionId f)]
       \<and> memory (snd (getMemory f s)) = memory s"
proof -
  assume chain: "buildMessageHistory (fst (getManyBySessionId (sessionId f) s)) = Inr chain"
    and no_ai: "\<forall>m \<in> set chain. msg_role m \<noteq> ''ai''"
  have none: "extractTurnIds chain = []"
    using no_ai by (rule extractTurnIds_no_ai)
  have "getMemory f s = (Inr [], called (GetManyBySessionId (sessionId f)) s)"
    using chain none by (rule getMemory_no_turns)
  with none show ?thesis by (simp add: called_def)
qed

lemma matches_turn_iff: "matches_turn tids e = (\<exists>t. mem_turnId e = Some t \<and> t \<in> set tids)"
  by (cases "mem_turnId e") (simp_all add: matches_turn_def)

lemma getMemory_chain:
  assumes "buildMessageHistory (fst (getManyBySessionId (sessionId f) s)) = Inr chain"
  shows "fst (getMemory f s) =
           Inr (map to_entry
                 (sort_key mem_createdAt
                    (filter (\<lambda>e. mem_sessionId e = sessionId f \<and> mem_memoryNodeId e = memoryNodeId f
                               \<and> (\<exists>t. mem_turnId e = Some t \<and> t \<in> set (extractTurnIds chain)))
                       (memory s))))"
proof (cases "fst (getManyBySessionId (sessionId f) s) = []")
  case True
  with assms have "chain = []" by (simp add: buildMessageHistory_Nil)
  then show ?thesis
    using True by (simp add: getMemory_def Let_def split_def extractTurnIds_Nil)
next
  case False
  show ?thesis
  proof (cases "extractTurnIds chain = []")
    case True
    then show ?thesis
      using assms False by (simp add: getMemory_def Let_def split_def)
  next
    case nonempty: False
    then show ?thesis
      using assms False
      by (simp add: getMemory_def Let_def split_def getMemoryByTurnIds_def matches_turn_iff
          getManyBySessionId_def)
  qed
qed

text \<open>
  C2: when the messages of the session have an active chain, \<open>getMemory\<close> returns
  exactly the stored entries of the facade's session and memory node whose turn id is
  one of those extracted from the chain, ordered by creation time and projected to
  the typed entry contract.  Every entry returned is an entry of this session and
  this memory node.
\<close>

theorem getMemory_isolated_per_node:
  "buildMessageHistory (fst (getManyBySessionId (sessionId f) s)) = Inr chain
   \<Longrightarrow> fst (getMemory f s) =
         Inr (map (\<lambda>e. \<lparr>entry_id = mem_id e, entry_role = mem_role e,
                         entry_content = mem_content e, entry_name = mem_name e,
                         entry_createdAt = mem_createdAt e\<rparr>)
               (sort_key mem_createdAt
                  (filter (\<lambda>e. mem_sessionId e = sessionId f \<and> mem_memoryNodeId e = memoryNodeId f
                             \<and> (\<exists>t. mem_turnId e = Some t \<and> t \<in> set (extractTurnIds chain)))
                     (memory s))))
       \<and> (\<forall>es. fst (getMemory f s) = Inr es \<longrightarrow>
             sorted (map entry_createdAt es)
             \<and> (\<forall>x \<in> set es. \<exists>e \<in> set (memory s). x = to_entry e
                    \<and> mem_sessionId e = sessionId f \<and> mem_memoryNodeId e = memoryNodeId f))"
proof -
  assume chain: "buildMessageHistory (fst (getManyBySessionId (sessionId f) s)) = Inr chain"
  let ?sel = "filter (\<lambda>e. mem_sessionId e = sessionId f \<and> mem_memoryNodeId e = memoryNodeId f
                             \<and> (\<exists>t. mem_turnId e = Some t \<and> t \<in> set (extractTurnIds chain)))
                     (memory s)"
  have eq: "fst (getMemory f s) = Inr (map to_entry (sort_key mem_createdAt ?sel))"
    using chain by (rule getMemory_chain)
  have proj: "to_entry = (\<lambda>e. \<lparr>entry_id = mem_id e, entry_role = mem_role e,
                         entry_content = mem_content e, entry_name = mem_name e,
                         entry_createdAt = mem_createdAt e\<rparr>)"
    by (rule ext) (simp add: to_entry_def)
  have times: "map entry_createdAt (map to_entry xs) = map mem_createdAt xs" for xs
    by (simp add: to_entry_def)
  have ordered: "sorted (map entry_createdAt (map to_entry (sort_key mem_createdAt ?sel)))"
    by (simp only: times sorted_sort_key)
  have own: "\<forall>x \<in> set (map to_entry (sort_key mem_createdAt ?sel)).
               \<exists>e \<in> set (memory s). x = to_entry e
                    \<and> mem_sessionId e = sessionId f \<and> mem_memoryNodeId e = memoryNodeId f"
    by auto
  show ?thesis
    using eq ordered own unfolding proj [symmetric] by simp
qed

lemma fresh_chain:
  "buildMessageHistory (fst (getManyBySessionId ''s1'' fresh_repos)) =
     Inr [message ''m1'' None ''human'' 1 None]"
  by (simp add: buildMessageHistory_def getManyBySessionId_def fresh_repos_def message_def
      children_of_def)

lemma retried_chain:
  "buildMessageHistory (fst (getManyBySessionId ''s1'' retried_repos)) =
     Inr [message ''m1'' None ''human'' 1 None, message ''m3'' (Some ''m1'') ''ai'' 3 (Some ''T2'')]"
  by (simp add: buildMessageHistory_def getManyBySessionId_def retried_repos_def message_def
      children_of_def later_def)

theorem getMemory_without_assistant_turns_witness:
  "fst (getMemory (makeChatHubOperations ''s1'' ''n1'' (Some ''T1'') (OwnerString ''u1'') None ''Agent'')
          fresh_repos) = Inr []
   \<and> calls (snd (getMemory (makeChatHubOperations ''s1'' ''n1'' (Some ''T1'') (OwnerString ''u1'') None ''Agent'')
          fresh_repos)) = [GetManyBySessionId ''s1'']"
proof -
  let ?f = "makeChatHubOperations ''s1'' ''n1'' (Some ''T1'') (OwnerString ''u1'') None ''Agent''"
  have sid: "sessionId ?f = ''s1''"
    by (simp add: makeChatHubOperations_def)
  have chain: "buildMessageHistory (fst (getManyBySessionId (sessionId ?f) fresh_repos)) =
     Inr [message ''m1'' None ''human'' 1 None]"
    unfolding sid by (rule fresh_chain)
  have no_ai: "\<forall>m \<in> set [message ''m1'' None ''human'' 1 None]. msg_role m \<noteq> ''ai''"
    by (simp add: message_def)
  show ?thesis
    using getMemory_without_assistant_turns [OF chain no_ai] sid
    by (simp add: fresh_repos_def)
qed

theorem getMemory_isolated_per_node_witness:
  "fst (getMemory (makeChatHubOperations ''s1'' ''n1'' (Some ''T3'') (OwnerString ''u1'') None ''Agent'')
          retried_repos) =
     Inr [\<lparr>entry_id = ''e2'', entry_role = ''ai'', entry_content = ''{}'',
           entry_name = Some ''AI'', entry_createdAt = 3\<rparr>]"
proof -
  let ?f = "makeChatHubOperations ''s1'' ''n1'' (Some ''T3'') (OwnerString ''u1'') None ''Agent''"
  have sid: "sessionId ?f = ''s1''" and nid: "memoryNodeId ?f = ''n1''"
    by (simp_all add: makeChatHubOperations_def)
  have chain: "buildMessageHistory (fst (getManyBySessionId (sessionId ?f) retried_repos)) =
     Inr [message ''m1'' None ''human'' 1 None, message ''m3'' (Some ''m1'') ''ai'' 3 (Some ''T2'')]"
    unfolding sid by (rule retried_chain)
  have turns: "extractTurnIds [message ''m1'' None ''human'' 1 None,
                  message ''m3'' (Some ''m1'') ''ai'' 3 (Some ''T2'')] = [''T2'']"
    by (simp add: extractTurnIds_def List.map_filter_simps turn_of_def message_def)
  show ?thesis
    using getMemory_isolated_per_node [OF chain] turns sid nid
    by (simp add: retried_repos_def remembered_def)
qed

section \<open>Writes without a turn\<close>






section \<open>Reading back what \<open>JSON.stringify\<close> wrote\<close>


























lemma code_values:
  "code dquote = 34" "code bslash = 92" "code (CHR 0x08) = 8" "code (CHR 0x09) = 9"
  "code (CHR 0x0A) = 10" "code (CHR 0x0C) = 12" "code (CHR 0x0D) = 13"
  by (simp_all add: code_def)




lemma quote_string_hd: "quote_string s = dquote # tl (quote_string s)"
  by (simp add: quote_string_def)
































section \<open>The marshaling adapter\<close>

lemma getType_cases:
  "getType msg \<noteq> ''human'' \<Longrightarrow> getType msg \<noteq> ''ai'' \<Longrightarrow> getType msg \<noteq> ''tool''
   \<Longrightarrow> (\<exists>c. msg = SystemMessage c \<or> msg = FunctionMessage c
              \<or> msg = ChatMessage c \<or> msg = RemoveMessage c)"
  by (cases msg) simp_all

text \<open>
  C10: \<open>addMessage\<close> makes no call of the memory service for a message whose type is
  not \<open>human\<close>, \<open>ai\<close> or \<open>tool\<close>, and so for a system message: the repositories,
  the record of calls included, are left as they were.  The same holds for the second
  copy of the method.  The read direction does build system messages.
\<close>

theorem addMessage_drops_other_types:
  "getType msg \<noteq> ''human'' \<Longrightarrow> getType msg \<noteq> ''ai'' \<Longrightarrow> getType msg \<noteq> ''tool''
   \<Longrightarrow> addMessage f new_id now msg s = s
       \<and> addMessage_second_copy msg = None
       \<and> addMessage f new_id now (SystemMessage c) s = s
       \<and> addMessage_second_copy (SystemMessage c) = None
       \<and> (entry_role e = ''system'' \<longrightarrow>
             convertToLangChainMessage e = Inr (NewSystemMessage (entry_content e)))"
proof -
  assume other: "getType msg \<noteq> ''human''" "getType msg \<noteq> ''ai''"
    "getType msg \<noteq> ''tool''"
  have first: "addMessage f new_id now msg s = s"
    using other by (simp add: addMessage_def Let_def)
  have second: "addMessage_second_copy msg = None"
    using getType_cases [OF other] by (auto simp: addMessage_second_copy_def Let_def)
  have sys1: "addMessage f new_id now (SystemMessage c) s = s"
    by (simp add: addMessage_def Let_def)
  have sys2: "addMessage_second_copy (SystemMessage c) = None"
    by (simp add: addMessage_second_copy_def Let_def)
  have rd: "entry_role e = ''system'' \<longrightarrow>
             convertToLangChainMessage e = Inr (NewSystemMessage (entry_content e))"
    by (simp add: convertToLangChainMessage_def)
  from first second sys1 sys2 rd show ?thesis by (intro conjI)
qed

theorem addMessage_drops_other_types_witness:
  "addMessage (makeChatHubOperations ''s1'' ''n1'' (Some ''T1'') (OwnerString ''u1'') None ''Agent'') ''e9'' 7
     (FunctionMessage (Text ''result'')) retried_repos = retried_repos
   \<and> addMessage_second_copy (FunctionMessage (Text ''result'')) = None"
proof -
  have t: "getType (FunctionMessage (Text ''result'')) \<noteq> ''human''"
    "getType (FunctionMessage (Text ''result'')) \<noteq> ''ai''"
    "getType (FunctionMessage (Text ''result'')) \<noteq> ''tool''"
    by simp_all
  note all = addMessage_drops_other_types
      [OF t, of "makeChatHubOperations ''s1'' ''n1'' (Some ''T1'') (OwnerString ''u1'') None ''Agent''"
         "''e9''" 7 retried_repos]
  from all have one: "addMessage (makeChatHubOperations ''s1'' ''n1'' (Some ''T1'') (OwnerString ''u1'') None ''Agent'')
      ''e9'' 7 (FunctionMessage (Text ''result'')) retried_repos = retried_repos"
    by (rule conjunct1)
  have two: "addMessage_second_copy (FunctionMessage (Text ''result'')) = None"
    by (rule all [THEN conjunct2, THEN conjunct1])
  from one two show ?thesis by (rule conjI)
qed

lemma parse_null: "JSON_parse ''null'' = Some JNull"
  by code_simp

lemma parse_42: "JSON_parse ''42'' = Some (JNumber 42)"
  by code_simp

text \<open>
  C7 fails on the code: a \<open>tool\<close> entry whose content is the text \<open>null\<close> parses, to
  \<open>null\<close>, and the read of \<open>toolOutput\<close> from it, outside the \<open>try\<close> block, is a
  \<open>TypeError\<close>; the conversion of a list of entries that holds it fails as a whole.
  A \<open>human\<close> entry whose content is the text \<open>42\<close> parses as well, and the message
  built from it has no content.
\<close>

theorem tool_entry_null_fails:
  "convertToLangChainMessage
     \<lparr>entry_id = ''e1'', entry_role = ''tool'', entry_content = ''null'',
      entry_name = Some ''search'', entry_createdAt = 1\<rparr> = Inl TypeError
   \<and> convert_all
       [\<lparr>entry_id = ''e0'', entry_role = ''human'', entry_content = ''hello'',
         entry_name = Some ''User'', entry_createdAt = 0\<rparr>,
        \<lparr>entry_id = ''e1'', entry_role = ''tool'', entry_content = ''null'',
         entry_name = Some ''search'', entry_createdAt = 1\<rparr>] = Inl TypeError
   \<and> convertToLangChainMessage
       \<lparr>entry_id = ''e2'', entry_role = ''human'', entry_content = ''42'',
        entry_name = Some ''User'', entry_createdAt = 2\<rparr> = Inr (NewHumanMessage None (Some ''User''))"
  by (simp add: convertToLangChainMessage_def parseToolMessageContent_def
      parseHumanMessageContent_def parse_null parse_42 js_get_def string_or_stringify_def)

lemma read_total_but_tool:
  "entry_role e \<noteq> ''tool'' \<Longrightarrow> \<exists>m. convertToLangChainMessage e = Inr m"
  by (simp add: convertToLangChainMessage_def Let_def)






end
